theory Spec2Isabelle
  imports Main "HOL-Library.AList"
begin

section \<open>Python string formatting used by the sources\<close>

text \<open>
  \<^verbatim>\<open>'%d' % i\<close> for a non-negative integer: the decimal digits, most significant first,
  no sign and no padding.
\<close>

definition digit_char :: "nat \<Rightarrow> char" where
  "digit_char d = char_of (48 + d)"

function fmt_d :: "nat \<Rightarrow> string" where
  "fmt_d n = (if n < 10 then [digit_char n] else fmt_d (n div 10) @ [digit_char (n mod 10)])"
  by pat_completeness auto
termination
  by (relation "measure id") auto

declare fmt_d.simps [simp del]

text \<open>
  \<^verbatim>\<open>'%.2d' % i\<close> for a non-negative integer: a precision of 2 on an integer conversion
  asks for at least two digits, padded with zeros on the left.
\<close>

definition fmt_2d :: "nat \<Rightarrow> string" where
  "fmt_2d n = (if n < 10 then CHR ''0'' # fmt_d n else fmt_d n)"

lemma digit_char_inj: "a < 10 \<Longrightarrow> b < 10 \<Longrightarrow> digit_char a = digit_char b \<Longrightarrow> a = b"
proof -
  assume a: "a < 10" and b: "b < 10" and e: "digit_char a = digit_char b"
  from e have "(of_char (char_of (48 + a)) :: nat) = of_char (char_of (48 + b))"
    by (simp add: digit_char_def)
  with a b show "a = b" by simp
qed

lemma fmt_d_nonempty: "fmt_d n \<noteq> []"
  by (subst fmt_d.simps) simp

lemma fmt_d_inj: "fmt_d n = fmt_d m \<Longrightarrow> n = m"
proof (induction n arbitrary: m rule: fmt_d.induct)
  case (1 n)
  show ?case
  proof (cases "n < 10")
    case True
    then have n1: "fmt_d n = [digit_char n]" by (subst fmt_d.simps) simp
    show ?thesis
    proof (cases "m < 10")
      case True
      then have "fmt_d m = [digit_char m]" by (subst fmt_d.simps) simp
      with n1 "1.prems" have "digit_char n = digit_char m" by simp
      with \<open>n < 10\<close> True show ?thesis by (rule digit_char_inj)
    next
      case False
      then have "fmt_d m = fmt_d (m div 10) @ [digit_char (m mod 10)]"
        by (subst fmt_d.simps) simp
      with n1 "1.prems" have "fmt_d (m div 10) = []" by simp
      then show ?thesis by (simp add: fmt_d_nonempty)
    qed
  next
    case False
    then have n2: "fmt_d n = fmt_d (n div 10) @ [digit_char (n mod 10)]"
      by (subst fmt_d.simps) simp
    show ?thesis
    proof (cases "m < 10")
      case True
      then have "fmt_d m = [digit_char m]" by (subst fmt_d.simps) simp
      with n2 "1.prems" have "fmt_d (n div 10) = []" by simp
      then show ?thesis by (simp add: fmt_d_nonempty)
    next
      case mf: False
      then have "fmt_d m = fmt_d (m div 10) @ [digit_char (m mod 10)]"
        by (subst fmt_d.simps) simp
      with n2 "1.prems" have e1: "fmt_d (n div 10) = fmt_d (m div 10)"
        and e2: "digit_char (n mod 10) = digit_char (m mod 10)" by simp_all
      from "1.IH" [OF False e1] have q: "n div 10 = m div 10" .
      have "n mod 10 = m mod 10" by (rule digit_char_inj [OF _ _ e2]) simp_all
      with q show ?thesis by (metis div_mult_mod_eq)
    qed
  qed
qed

lemma fmt_d_hd: "0 < n \<Longrightarrow> hd (fmt_d n) \<noteq> CHR ''0''"
proof (induction n rule: fmt_d.induct)
  case (1 n)
  show ?case
  proof (cases "n < 10")
    case True
    then have "fmt_d n = [digit_char n]" by (subst fmt_d.simps) simp
    moreover have "digit_char 0 = CHR ''0''" by code_simp
    moreover have "digit_char n \<noteq> digit_char 0"
      using digit_char_inj [of n 0] True "1.prems" by auto
    ultimately show ?thesis by simp
  next
    case False
    then have "fmt_d n = fmt_d (n div 10) @ [digit_char (n mod 10)]"
      by (subst fmt_d.simps) simp
    moreover from False have "0 < n div 10" by simp
    ultimately show ?thesis using "1.IH" [OF False] by (simp add: fmt_d_nonempty)
  qed
qed

lemma fmt_2d_inj: "fmt_2d n = fmt_2d m \<Longrightarrow> n = m"
proof -
  assume e: "fmt_2d n = fmt_2d m"
  have pad: "hd (fmt_d k) \<noteq> CHR ''0''" if "\<not> k < 10" for k
    using that by (intro fmt_d_hd) simp
  show "n = m"
  proof (cases "n < 10"; cases "m < 10")
    assume "n < 10" "m < 10"
    with e show ?thesis by (simp add: fmt_2d_def fmt_d_inj)
  next
    assume a: "n < 10" "\<not> m < 10"
    with e have "hd (fmt_d m) = CHR ''0''" by (simp add: fmt_2d_def) (metis list.sel(1))
    with pad [OF a(2)] show ?thesis by simp
  next
    assume a: "\<not> n < 10" "m < 10"
    with e have "hd (fmt_d n) = CHR ''0''" by (simp add: fmt_2d_def)
    with pad [OF a(1)] show ?thesis by simp
  next
    assume "\<not> n < 10" "\<not> m < 10"
    with e show ?thesis by (simp add: fmt_2d_def fmt_d_inj)
  qed
qed


section \<open>The namespace and \<open>System.get_unique_name\<close>\<close>

text \<open>
  The system namespace is a dictionary from names to registered objects. It is kept as an
  association list in insertion order; \<^verbatim>\<open>name in ns\<close> asks whether the name is a key.
\<close>

type_synonym 'o namespace = "(string \<times> 'o) list"

definition in_ns :: "string \<Rightarrow> 'o namespace \<Rightarrow> bool" where
  "in_ns name ns = (name \<in> set (map fst ns))"

text \<open>\<^verbatim>\<open>u"%s_%.2d" % (newname, counter)\<close>\<close>

definition suffixed :: "string \<Rightarrow> nat \<Rightarrow> string" where
  "suffixed newname counter = newname @ ''_'' @ fmt_2d counter"

lemma suffixed_inj: "suffixed newname a = suffixed newname b \<Longrightarrow> a = b"
  by (simp add: suffixed_def fmt_2d_inj)

lemma finite_taken: "finite {k. in_ns (suffixed newname k) ns}"
proof -
  have "{k. in_ns (suffixed newname k) ns} = suffixed newname -` set (map fst ns)"
    by (auto simp: in_ns_def)
  moreover have "inj (suffixed newname)"
    by (rule injI) (rule suffixed_inj)
  ultimately show ?thesis
    by (simp add: finite_vimageI)
qed

text \<open>
  The \<^verbatim>\<open>while True\<close> loop of \<open>get_unique_name\<close>, entered with \<open>counter = 0\<close>: it
  returns the first suffixed name that is not a key and otherwise increments the counter.
  It ends because the dictionary has finitely many keys and distinct counters give
  distinct names.
\<close>

function probe :: "'o namespace \<Rightarrow> string \<Rightarrow> nat \<Rightarrow> string" where
  "probe ns newname counter =
     (if \<not> in_ns (suffixed newname counter) ns then suffixed newname counter
      else probe ns newname (counter + 1))"
  by pat_completeness auto
termination
proof (relation "measure (\<lambda>(ns, newname, counter).
          card {k. counter \<le> k \<and> in_ns (suffixed newname k) ns})")
  show "wf (measure (\<lambda>(ns :: 'o namespace, newname, counter).
          card {k. counter \<le> k \<and> in_ns (suffixed newname k) ns}))"
    by simp
next
  fix ns :: "'o namespace" and newname counter
  assume "\<not> \<not> in_ns (suffixed newname counter) ns"
  then have here: "in_ns (suffixed newname counter) ns" by simp
  let ?A = "{k. counter \<le> k \<and> in_ns (suffixed newname k) ns}"
  let ?B = "{k. counter + 1 \<le> k \<and> in_ns (suffixed newname k) ns}"
  have fin: "finite ?A" using finite_taken [of newname ns] by simp
  have "counter \<in> ?A" "counter \<notin> ?B" "?B \<subseteq> ?A" using here by auto
  then have "?B \<subset> ?A" by blast
  then have "card ?B < card ?A" using fin by (rule psubset_card_mono [rotated])
  then show "((ns, newname, counter + 1), (ns, newname, counter))
      \<in> measure (\<lambda>(ns, newname, counter).
          card {k. counter \<le> k \<and> in_ns (suffixed newname k) ns})"
    by simp
qed

declare probe.simps [simp del]

text \<open>
  \<open>get_unique_name(self, obj, name='', name_from_system='')\<close>. Of \<open>obj\<close> only
  \<^verbatim>\<open>obj.__class__.__name__\<close> is read, so the object is given by its class name.
\<close>

definition get_unique_name ::
  "'o namespace \<Rightarrow> string \<Rightarrow> string \<Rightarrow> string \<Rightarrow> string" where
  "get_unique_name ns class_name name name_from_system =
     (let newname = name;
          newname = (if newname = [] then name_from_system else newname);
          newname = (if newname = [] then ''Nameless_'' @ class_name else newname)
      in if \<not> in_ns newname ns then newname else probe ns newname 0)"

lemma probe_free: "\<not> in_ns (probe ns newname counter) ns"
proof (induction ns newname counter rule: probe.induct)
  case (1 ns newname counter)
  then show ?case by (subst probe.simps) simp
qed

lemma probe_least:
  "\<exists>k\<ge>counter. probe ns newname counter = suffixed newname k
     \<and> (\<forall>j. counter \<le> j \<and> j < k \<longrightarrow> in_ns (suffixed newname j) ns)"
proof (induction ns newname counter rule: probe.induct)
  case (1 ns newname counter)
  show ?case
  proof (cases "in_ns (suffixed newname counter) ns")
    case False
    then have "probe ns newname counter = suffixed newname counter"
      by (subst probe.simps) simp
    then show ?thesis by (intro exI [of _ counter]) auto
  next
    case True
    then have step: "probe ns newname counter = probe ns newname (counter + 1)"
      by (subst probe.simps) simp
    from "1.IH" True obtain k where k: "counter + 1 \<le> k"
      "probe ns newname (counter + 1) = suffixed newname k"
      "\<forall>j. counter + 1 \<le> j \<and> j < k \<longrightarrow> in_ns (suffixed newname j) ns"
      by auto
    have "\<forall>j. counter \<le> j \<and> j < k \<longrightarrow> in_ns (suffixed newname j) ns"
    proof (intro allI impI)
      fix j assume "counter \<le> j \<and> j < k"
      then have "j = counter \<or> (counter + 1 \<le> j \<and> j < k)" by arith
      with True k(3) show "in_ns (suffixed newname j) ns" by auto
    qed
    with k step show ?thesis by (intro exI [of _ k]) simp
  qed
qed

text \<open>
  C6. With neither \<open>name\<close> nor \<open>name_from_system\<close> given, the base name is
  \<open>Nameless_\<close> followed by the class name. If the base name is free it is returned;
  otherwise the result is the base name with the suffix of the least counter, counted
  up from 0, whose suffixed name is not a key: all smaller counters were probed and
  found taken. In either case the returned name is not a key of the namespace.
\<close>

theorem get_unique_name_nameless:
  fixes ns :: "'o namespace"
  defines "base c \<equiv> ''Nameless_'' @ c"
  shows "\<not> in_ns (get_unique_name ns c [] []) ns
    \<and> (if in_ns (base c) ns
       then \<exists>k. get_unique_name ns c [] [] = suffixed (base c) k
              \<and> \<not> in_ns (suffixed (base c) k) ns
              \<and> (\<forall>j<k. in_ns (suffixed (base c) j) ns)
       else get_unique_name ns c [] [] = base c)"
proof -
  obtain k where k: "probe ns (base c) 0 = suffixed (base c) k"
    "\<forall>j. 0 \<le> j \<and> j < k \<longrightarrow> in_ns (suffixed (base c) j) ns"
    using probe_least [of 0 ns "base c"] by auto
  have free: "\<not> in_ns (probe ns (base c) 0) ns" by (rule probe_free)
  show ?thesis
  proof (cases "in_ns (base c) ns")
    case True
    then have g: "get_unique_name ns c [] [] = probe ns (base c) 0"
      by (simp add: get_unique_name_def base_def)
    have "get_unique_name ns c [] [] = suffixed (base c) k
              \<and> \<not> in_ns (suffixed (base c) k) ns
              \<and> (\<forall>j<k. in_ns (suffixed (base c) j) ns)"
      using g k free by simp
    then show ?thesis using True g free by auto
  next
    case False
    then show ?thesis by (simp add: get_unique_name_def base_def)
  qed
qed

theorem get_unique_name_nameless_witness:
  "in_ns ''Nameless_Sensor'' [(''Nameless_Sensor'', ()), (''Nameless_Sensor_00'', ())]
   \<and> get_unique_name [(''Nameless_Sensor'', ()), (''Nameless_Sensor_00'', ())] ''Sensor'' [] []
       = ''Nameless_Sensor_01''
   \<and> \<not> in_ns ''Nameless_Sensor_01'' [(''Nameless_Sensor'', ()), (''Nameless_Sensor_00'', ())]"
proof -
  let ?ns = "[(''Nameless_Sensor'', ()), (''Nameless_Sensor_00'', ())]"
  let ?b = "''Nameless_'' @ ''Sensor''"
  have taken: "in_ns ?b ?ns" by (simp add: in_ns_def)
  have s0: "suffixed ?b 0 = ''Nameless_Sensor_00''" by code_simp
  have s1: "suffixed ?b 1 = ''Nameless_Sensor_01''" by code_simp
  have t0: "in_ns (suffixed ?b 0) ?ns" unfolding s0 by (simp add: in_ns_def)
  have f1: "\<not> in_ns (suffixed ?b 1) ?ns" unfolding s1 by (simp add: in_ns_def)
  from get_unique_name_nameless [of ?ns "''Sensor''"] taken
  obtain k where k: "get_unique_name ?ns ''Sensor'' [] [] = suffixed ?b k"
    "\<not> in_ns (suffixed ?b k) ?ns" "\<forall>j<k. in_ns (suffixed ?b j) ?ns"
    by auto
  have "k \<noteq> 0"
  proof
    assume "k = 0"
    with k(2) t0 show False by simp
  qed
  moreover have "\<not> 1 < k"
  proof
    assume "1 < k"
    with k(3) have "in_ns (suffixed ?b 1) ?ns" by blast
    with f1 show False by simp
  qed
  ultimately have "k = 1" by arith
  with k(1) s1 have "get_unique_name ?ns ''Sensor'' [] [] = ''Nameless_Sensor_01''" by simp
  moreover have "in_ns ''Nameless_Sensor'' ?ns" by (simp add: in_ns_def)
  moreover have "\<not> in_ns ''Nameless_Sensor_01'' ?ns" by (simp add: in_ns_def)
  ultimately show ?thesis by simp
qed

text \<open>
  A given \<open>name\<close> is the base name, before \<open>name_from_system\<close>; the generated
  \<open>Nameless_\<close> name is used only when both are empty.
\<close>

lemma get_unique_name_base:
  "get_unique_name ns c name name_from_system =
     (let base = (if name \<noteq> [] then name
                  else if name_from_system \<noteq> [] then name_from_system
                  else ''Nameless_'' @ c)
      in if in_ns base ns then probe ns base 0 else base)"
  by (simp add: get_unique_name_def Let_def)

text \<open>The returned name is free whatever names were passed.\<close>

lemma get_unique_name_free:
  "\<not> in_ns (get_unique_name ns c name name_from_system) ns"
  by (simp add: get_unique_name_def Let_def probe_free)


section \<open>Objects, snapshots and the file system\<close>

text \<open>
  Of a system object the snapshot code reads \<open>name\<close>, \<open>status\<close> and, through
  \<^verbatim>\<open>getattr(obj, 'user_editable', False)\<close>, the attribute \<open>user_editable\<close>,
  which an object may lack (\<open>None\<close>). The type of status values is left open.
\<close>

record 'v sysobj =
  obj_name :: string
  obj_status :: 'v
  user_editable :: "bool option"

text \<open>A \<^verbatim>\<open>dict\<close> from names to status values, in insertion order.\<close>

type_synonym 'v config = "(string \<times> 'v) list"

definition STATEFILE_VERSION :: int where
  "STATEFILE_VERSION = 1"

text \<open>The exceptions that the modelled code raises.\<close>

datatype error =
  FileNotFoundError
| RuntimeError string
| EOFError
| AttributeError
| ValueError
| KeyError
| OSError int
| Unpickling_failure string

text \<open>
  What \<^verbatim>\<open>statefile_version, data = pickle.load(of)\<close> finds in a file: the pair
  \<^verbatim>\<open>(statefile_version, (obj_list, config))\<close> that \<open>save_state\<close> dumps; an
  empty file, on which \<^verbatim>\<open>pickle.load\<close> raises \<open>EOFError\<close>; or any other content,
  given with the exception that loading or unpacking it raises (\<open>ValueError\<close> for a
  sequence that is not a pair, for instance).
\<close>

datatype 'v content =
  Snapshot int "'v sysobj list" "'v config"
| Empty
| Other error

record 'v stored =
  mtime :: int
  content :: "'v content"

datatype level = DEBUG | INFO | WARNING | ERROR

text \<open>
  The effects of the system code on its surroundings and its reads of the live
  objects, in the order in which the code performs them: log records (level, format
  string, arguments), successful renames, opening a file for writing, entering and
  leaving the \<^verbatim>\<open>with\<close> block of the worker queue's mutex, \<^verbatim>\<open>list(self.objects)\<close>
  (with the list obtained), the dictionary comprehension that reads name, status and
  \<open>user_editable\<close> of the copied objects (with the dictionary built),
  \<^verbatim>\<open>pickle.dump\<close> into a file (with what is dumped), and closing a file.
\<close>

datatype 'v event =
  Log level string "string list"
| Rename string string
| Open_wb string
| Acquire_mutex
| Copy_objects "'v sysobj list"
| Build_config "'v config"
| Pickle_dump string "'v content"
| Release_mutex
| Close_file string

text \<open>
  The directory is flat and holds regular files only; every path can be written.
  \<open>events\<close> is the trace of effects so far.
\<close>

record 'v world =
  files :: "string \<rightharpoonup> 'v stored"
  events :: "'v event list"

record 'v system =
  filename :: string
  num_state_backups :: int
  objects :: "'v sysobj list"

section \<open>\<open>System.save_state\<close>\<close>

definition emit :: "'v event \<Rightarrow> 'v world \<Rightarrow> 'v world" where
  "emit e w = w\<lparr>events := events w @ [e]\<rparr>"

text \<open>
  \<^verbatim>\<open>os.rename(src, dst)\<close>: \<open>FileNotFoundError\<close>, the only failure in a flat writable
  directory and written \<open>None\<close> here, when the source is missing; otherwise the file
  moves, silently replacing an existing destination (POSIX).
\<close>

definition os_rename :: "string \<Rightarrow> string \<Rightarrow> 'v world \<Rightarrow> 'v world option" where
  "os_rename src dst w =
     (case files w src of
        None \<Rightarrow> None
      | Some f \<Rightarrow> Some (emit (Rename src dst) (w\<lparr>files := (files w)(src := None, dst \<mapsto> f)\<rparr>)))"

text \<open>\<^verbatim>\<open>'%s.%d' % (self.filename, i)\<close>\<close>

definition numbered :: "string \<Rightarrow> nat \<Rightarrow> string" where
  "numbered path i = path @ ''.'' @ fmt_d i"

text \<open>
  One iteration of the rotation loop, for the loop variable \<open>i\<close>:
  \<^verbatim>\<open>try: os.rename(fname, new_fname)\<close> \<^verbatim>\<open>except FileNotFoundError: pass\<close>.
\<close>

definition rotate_step :: "string \<Rightarrow> nat \<Rightarrow> 'v world \<Rightarrow> 'v world" where
  "rotate_step path i w =
     (let fname = (if i = 0 then path else numbered path i);
          new_fname = numbered path (i + 1)
      in case os_rename fname new_fname w of
           Some w' \<Rightarrow> w'
         | None \<Rightarrow> w)"

text \<open>
  \<^verbatim>\<open>for i in reversed(range(self.num_state_backups))\<close>: the loop variable runs from
  \<open>num_state_backups - 1\<close> down to 0, and not at all when the count is not positive.
\<close>

definition rotate :: "string \<Rightarrow> int \<Rightarrow> 'v world \<Rightarrow> 'v world" where
  "rotate path n w = fold (rotate_step path) (rev [0..<nat n]) w"

text \<open>
  The dictionary comprehension
  \<^verbatim>\<open>{obj.name: obj.status for obj in obj_list if getattr(obj, 'user_editable', False)}\<close>:
  a later object with a name already present replaces the value and keeps the position.
\<close>

definition editable :: "'v sysobj \<Rightarrow> bool" where
  "editable obj = (case user_editable obj of None \<Rightarrow> False | Some b \<Rightarrow> b)"

definition editable_config :: "'v sysobj list \<Rightarrow> 'v config" where
  "editable_config obj_list =
     fold (\<lambda>obj cfg. AList.update (obj_name obj) (obj_status obj) cfg)
       (filter editable obj_list) []"

text \<open>
  \<open>save_state\<close> at time \<open>now\<close>. The \<^verbatim>\<open>with\<close> statement opens the file (creating or
  truncating it) and then takes the mutex; its body copies the objects, builds the
  configuration and dumps; leaving it releases the mutex and then closes the file.
\<close>

definition save_state :: "'v system \<Rightarrow> int \<Rightarrow> 'v world \<Rightarrow> 'v world" where
  "save_state self now w =
     (if filename self = [] then
        emit (Log ERROR ''Filename not specified. Could not save state'' []) w
      else
        let w = emit (Log DEBUG ''Saving system state to %s'' [filename self]) w;
            w = rotate (filename self) (num_state_backups self) w;
            w = emit (Open_wb (filename self))
                  (w\<lparr>files := (files w)(filename self \<mapsto>
                        \<lparr>mtime = now, content = Empty\<rparr>)\<rparr>);
            w = emit Acquire_mutex w;
            obj_list = objects self;
            w = emit (Copy_objects obj_list) w;
            config = editable_config obj_list;
            w = emit (Build_config config) w;
            data = Snapshot STATEFILE_VERSION obj_list config;
            w = emit (Pickle_dump (filename self) data)
                  (w\<lparr>files := (files w)(filename self \<mapsto>
                        \<lparr>mtime = now, content = data\<rparr>)\<rparr>);
            w = emit Release_mutex w
        in emit (Close_file (filename self)) w)"


section \<open>Backup rotation\<close>

text \<open>
  The names the rotation works on: \<open>slot path 0\<close> is the state file itself,
  \<open>slot path i\<close> its \<open>i\<close>-th backup. This is the source's
  \<^verbatim>\<open>fname = self.filename if i == 0 else '%s.%d' % (self.filename, i)\<close>.
\<close>

definition slot :: "string \<Rightarrow> nat \<Rightarrow> string" where
  "slot path i = (if i = 0 then path else numbered path i)"

lemma numbered_inj: "numbered p i = numbered p j \<Longrightarrow> i = j"
  by (simp add: numbered_def fmt_d_inj)

lemma numbered_neq: "numbered p i \<noteq> p"
  by (simp add: numbered_def)

lemma slot_inj: "slot p i = slot p j \<Longrightarrow> i = j"
  using numbered_neq [of p i] numbered_neq [of p j] numbered_inj [of p i j]
  by (auto simp: slot_def split: if_splits)

lemma slot_eq_iff [simp]: "slot p i = slot p j \<longleftrightarrow> i = j"
  using slot_inj by auto

lemma rotate_step_files:
  "files (rotate_step p i w) =
     (case files w (slot p i) of
        None \<Rightarrow> files w
      | Some f \<Rightarrow> (files w)(slot p i := None, slot p (Suc i) \<mapsto> f))"
  by (simp add: rotate_step_def os_rename_def emit_def slot_def Let_def split: option.splits)

lemma rotate_step_slot:
  "files (rotate_step p n w) (slot p j) =
     (if j = n then None
      else if j = Suc n then (case files w (slot p n) of Some f \<Rightarrow> Some f
                              | None \<Rightarrow> files w (slot p (Suc n)))
      else files w (slot p j))"
  by (auto simp: rotate_step_files split: option.splits)

lemma rotate_step_other:
  "q \<notin> range (slot p) \<Longrightarrow> files (rotate_step p n w) q = files w q"
  by (auto simp: rotate_step_files split: option.splits)

text \<open>The rotation loop for a count given as a natural number.\<close>

definition rot :: "string \<Rightarrow> nat \<Rightarrow> 'v world \<Rightarrow> 'v world" where
  "rot p n w = fold (rotate_step p) (rev [0..<n]) w"

lemma rot_0 [simp]: "rot p 0 w = w"
  by (simp add: rot_def)

lemma rot_Suc [simp]: "rot p (Suc n) w = rot p n (rotate_step p n w)"
  by (simp add: rot_def)

lemma rot_other: "q \<notin> range (slot p) \<Longrightarrow> files (rot p n w) q = files w q"
  by (induction n arbitrary: w) (simp_all add: rotate_step_other)

lemma rot_slot:
  "files (rot p n w) (slot p i) =
     (if n = 0 then files w (slot p i)
      else if i = 0 then None
      else if i < n then files w (slot p (i - 1))
      else if i = n then (case files w (slot p (n - 1)) of Some f \<Rightarrow> Some f
                          | None \<Rightarrow> files w (slot p n))
      else files w (slot p i))"
proof (induction n arbitrary: w i)
  case 0
  then show ?case by simp
next
  case (Suc n)
  show ?case
  proof (cases "n = 0")
    case True
    then show ?thesis by (auto simp: rotate_step_slot split: option.splits)
  next
    case False
    then have pos: "0 < n" by simp
    let ?w = "rotate_step p n w"
    have ih: "files (rot p n ?w) (slot p i) =
       (if i = 0 then None
        else if i < n then files ?w (slot p (i - 1))
        else if i = n then (case files ?w (slot p (n - 1)) of Some f \<Rightarrow> Some f
                            | None \<Rightarrow> files ?w (slot p n))
        else files ?w (slot p i))"
      using Suc.IH [of ?w i] False by simp
    consider "i = 0" | "0 < i" "i < n" | "i = n" | "i = Suc n" | "Suc n < i" by arith
    then show ?thesis
    proof cases
      case 1
      then show ?thesis using ih by simp
    next
      case 2
      then have "i - 1 \<noteq> n" "i - 1 \<noteq> Suc n" by arith+
      then have "files ?w (slot p (i - 1)) = files w (slot p (i - 1))"
        by (simp add: rotate_step_slot)
      then show ?thesis using ih 2 by simp
    next
      case 3
      from pos have "n - 1 \<noteq> n" "n - 1 \<noteq> Suc n" by arith+
      then have "files ?w (slot p (n - 1)) = files w (slot p (n - 1))"
        by (simp add: rotate_step_slot)
      moreover have "files ?w (slot p n) = None"
        by (simp add: rotate_step_slot)
      ultimately show ?thesis using ih 3 pos by (simp split: option.splits)
    next
      case 4
      then show ?thesis using ih by (simp add: rotate_step_slot)
    next
      case 5
      then show ?thesis using ih by (simp add: rotate_step_slot)
    qed
  qed
qed


text \<open>The file that \<open>save_state\<close> leaves at \<open>self.filename\<close>.\<close>

definition written :: "'v system \<Rightarrow> int \<Rightarrow> 'v stored" where
  "written self now =
     \<lparr>mtime = now,
      content = Snapshot STATEFILE_VERSION (objects self) (editable_config (objects self))\<rparr>"

text \<open>Successive saves, each of a system state at a time.\<close>

definition save_all :: "('v system \<times> int) list \<Rightarrow> 'v world \<Rightarrow> 'v world" where
  "save_all ss w = fold (\<lambda>(self, now). save_state self now) ss w"

lemma rotate_rot: "rotate p n w = rot p (nat n) w"
  by (simp add: rotate_def rot_def)

lemma files_emit [simp]: "files (emit e w) = files w"
  by (simp add: emit_def)

lemma rotate_step_files_cong:
  "files w = files w' \<Longrightarrow> files (rotate_step p i w) = files (rotate_step p i w')"
  by (auto simp: rotate_step_files split: option.splits)

lemma rot_files_cong: "files w = files w' \<Longrightarrow> files (rot p n w) = files (rot p n w')"
proof (induction n arbitrary: w w')
  case 0
  then show ?case by simp
next
  case (Suc n)
  from Suc.prems have "files (rotate_step p n w) = files (rotate_step p n w')"
    by (rule rotate_step_files_cong)
  then have "files (rot p n (rotate_step p n w)) = files (rot p n (rotate_step p n w'))"
    by (rule Suc.IH)
  then show ?case by simp
qed

lemma rot_emit [simp]: "files (rot p n (emit e w)) = files (rot p n w)"
  by (rule rot_files_cong) simp

lemma save_state_files:
  "filename self \<noteq> [] \<Longrightarrow>
   files (save_state self now w) =
     (files (rot (filename self) (nat (num_state_backups self)) w))
       (filename self \<mapsto> written self now)"
  by (simp add: save_state_def Let_def rotate_rot written_def)

lemma slot_0 [simp]: "slot p 0 = p"
  by (simp add: slot_def)

lemma save_state_slot:
  assumes "filename self \<noteq> []"
  shows "files (save_state self now w) (slot (filename self) i) =
     (if i = 0 then Some (written self now)
      else files (rot (filename self) (nat (num_state_backups self)) w)
             (slot (filename self) i))"
proof -
  have "slot (filename self) i = filename self \<longleftrightarrow> i = 0"
    using slot_eq_iff [of "filename self" i 0] by simp
  then show ?thesis using assms by (simp add: save_state_files)
qed

lemma save_all_snoc: "save_all (ss @ [(self, now)]) w = save_state self now (save_all ss w)"
  by (simp add: save_all_def)

lemma save_all_slot:
  assumes "path \<noteq> []"
    and "\<forall>x\<in>set ss. filename (fst x) = path \<and> num_state_backups (fst x) = n"
    and "\<forall>i. files w (slot path i) = None"
  shows "files (save_all ss w) (slot path i) =
     (if i < min (length ss) (nat n + 1)
      then Some (written (fst (ss ! (length ss - 1 - i))) (snd (ss ! (length ss - 1 - i))))
      else None)"
  using assms(2)
proof (induction ss arbitrary: i rule: rev_induct)
  case Nil
  then show ?case using assms(3) by (simp add: save_all_def)
next
  case (snoc x ss)
  obtain self now where x: "x = (self, now)" by (cases x)
  let ?k = "length ss" and ?N = "nat n"
  let ?W = "save_all ss w"
  let ?wr = "\<lambda>j. written (fst (ss ! j)) (snd (ss ! j))"
  from snoc.prems x have f: "filename self = path" and nb: "num_state_backups self = n"
    and rest: "\<forall>x\<in>set ss. filename (fst x) = path \<and> num_state_backups (fst x) = n"
    by auto
  have ih: "files ?W (slot path j) = (if j < min ?k (?N + 1) then Some (?wr (?k - 1 - j)) else None)"
    for j using snoc.IH [OF rest] .
  have step: "files (save_all (ss @ [x]) w) (slot path i) =
     (if i = 0 then Some (written self now) else files (rot path ?N ?W) (slot path i))"
    using save_state_slot [of self now ?W i] assms(1) f nb by (simp add: x save_all_snoc)
  have nth_old: "(ss @ [x]) ! (?k - j) = ss ! (?k - j)" if "0 < j" "j \<le> ?k" for j
    using that by (auto simp: nth_append)
  have goal_len: "length (ss @ [x]) = Suc ?k" by simp
  consider "i = 0" | "0 < i" "?N = 0" | "0 < i" "i < ?N" | "0 < i" "i = ?N" | "?N < i" "0 < ?N"
    by arith
  then show ?case
  proof cases
    case 1
    then show ?thesis using step x by simp
  next
    case 2
    then have "files (save_all (ss @ [x]) w) (slot path i) = None"
      using step ih [of i] by simp
    moreover from 2 have "\<not> i < min (length (ss @ [x])) (?N + 1)" by simp
    ultimately show ?thesis by simp
  next
    case 3
    then have "?N \<noteq> 0" "i \<noteq> 0" by arith+
    with 3 have "files (rot path ?N ?W) (slot path i) = files ?W (slot path (i - 1))"
      by (simp only: rot_slot if_False if_True)
    with step 3 have s: "files (save_all (ss @ [x]) w) (slot path i) = files ?W (slot path (i - 1))"
      by simp
    show ?thesis
    proof (cases "i \<le> ?k")
      case True
      with 3 have "i - 1 < min ?k (?N + 1)" by arith
      then have "files ?W (slot path (i - 1)) = Some (?wr (?k - 1 - (i - 1)))"
        using ih [of "i - 1"] by simp
      moreover from True 3 have "?k - 1 - (i - 1) = ?k - i" by arith
      moreover from True 3 have "i < min (length (ss @ [x])) (?N + 1)" by simp
      moreover from True 3 have "length (ss @ [x]) - 1 - i = ?k - i" by simp
      ultimately show ?thesis using s nth_old [of i] True 3 by simp
    next
      case False
      with 3 have "\<not> i - 1 < min ?k (?N + 1)" by arith
      then have "files ?W (slot path (i - 1)) = None"
        using ih [of "i - 1"] by simp
      moreover from False have "\<not> i < min (length (ss @ [x])) (?N + 1)" by simp
      ultimately show ?thesis using s by simp
    qed
  next
    case 4
    then have "?N \<noteq> 0" "i \<noteq> 0" "\<not> i < ?N" by arith+
    with 4 have "files (rot path ?N ?W) (slot path i) =
        (case files ?W (slot path (?N - 1)) of Some f \<Rightarrow> Some f | None \<Rightarrow> files ?W (slot path ?N))"
      by (simp only: rot_slot if_False if_True refl)
    with step 4 have s: "files (save_all (ss @ [x]) w) (slot path i) =
        (case files ?W (slot path (?N - 1)) of Some f \<Rightarrow> Some f | None \<Rightarrow> files ?W (slot path ?N))"
      by simp
    show ?thesis
    proof (cases "i \<le> ?k")
      case True
      with 4 have "?N - 1 < min ?k (?N + 1)" by arith
      then have "files ?W (slot path (?N - 1)) = Some (?wr (?k - 1 - (?N - 1)))"
        using ih [of "?N - 1"] by simp
      moreover from True 4 have "?k - 1 - (?N - 1) = ?k - i" by arith
      moreover from True 4 have "i < min (length (ss @ [x])) (?N + 1)" by simp
      moreover from True 4 have "length (ss @ [x]) - 1 - i = ?k - i" by simp
      ultimately show ?thesis using s nth_old [of i] True 4 by simp
    next
      case False
      with 4 have "\<not> ?N - 1 < min ?k (?N + 1)" "\<not> ?N < min ?k (?N + 1)" by arith+
      then have "files ?W (slot path (?N - 1)) = None" "files ?W (slot path ?N) = None"
        using ih [of "?N - 1"] ih [of ?N] by simp_all
      moreover from False have "\<not> i < min (length (ss @ [x])) (?N + 1)" by simp
      ultimately show ?thesis using s by simp
    qed
  next
    case 5
    then have "?N \<noteq> 0" "i \<noteq> 0" "\<not> i < ?N" "i \<noteq> ?N" by arith+
    then have "files (rot path ?N ?W) (slot path i) = files ?W (slot path i)"
      by (simp only: rot_slot if_False if_True)
    with step 5 have "files (save_all (ss @ [x]) w) (slot path i) = files ?W (slot path i)"
      by simp
    moreover from 5 have "\<not> i < min ?k (?N + 1)" by simp
    then have "files ?W (slot path i) = None" using ih [of i] by simp
    moreover from 5 have "\<not> i < min (length (ss @ [x])) (?N + 1)" by simp
    ultimately show ?thesis by simp
  qed
qed


lemma save_all_other:
  assumes "path \<noteq> []"
    and "\<forall>x\<in>set ss. filename (fst x) = path \<and> num_state_backups (fst x) = n"
    and "q \<notin> range (slot path)"
  shows "files (save_all ss w) q = files w q"
  using assms(2)
proof (induction ss rule: rev_induct)
  case Nil
  then show ?case by (simp add: save_all_def)
next
  case (snoc x ss)
  obtain self now where x: "x = (self, now)" by (cases x)
  from snoc.prems x have f: "filename self = path"
    and rest: "\<forall>x\<in>set ss. filename (fst x) = path \<and> num_state_backups (fst x) = n"
    by auto
  have "q \<noteq> path" using assms(3) slot_0 [of path] by (metis rangeI)
  then show ?case
    using snoc.IH [OF rest] assms(1,3) f
    by (simp add: x save_all_snoc save_state_files rot_other)
qed

lemma save_state_one:
  assumes "filename self \<noteq> []"
  shows "files (save_state self now v) (slot (filename self) i) =
     (if i = 0 then Some (written self now)
      else if nat (num_state_backups self) = 0 then files v (slot (filename self) i)
      else if i < nat (num_state_backups self) then files v (slot (filename self) (i - 1))
      else if i = nat (num_state_backups self)
        then (case files v (slot (filename self) (nat (num_state_backups self) - 1)) of
                Some f \<Rightarrow> Some f
              | None \<Rightarrow> files v (slot (filename self) (nat (num_state_backups self))))
      else files v (slot (filename self) i))"
  by (simp only: save_state_slot [OF assms] rot_slot split: if_splits) simp

lemma card_slots:
  assumes "\<forall>i. (files W (slot path i) \<noteq> None) = (i < m)"
  shows "card {q \<in> range (slot path). files W q \<noteq> None} = m"
proof -
  have "{q \<in> range (slot path). files W q \<noteq> None} = slot path ` {..<m}"
    using assms by (auto simp: image_iff)
  moreover have "inj_on (slot path) {..<m}"
    by (rule inj_onI) simp
  ultimately show ?thesis by (simp add: card_image)
qed

text \<open>The backup names of a state file called \<open>state\<close>.\<close>

lemma numbered_2: "numbered ''state'' 2 = ''state.2''" by code_simp
lemma numbered_SS0: "numbered ''state'' (Suc (Suc 0)) = ''state.2''" by code_simp
lemma numbered_S0: "numbered ''state'' (Suc 0) = ''state.1''" by code_simp

text \<open>
  The rotation as the specification words it, for comparison with \<open>rotate\<close>: the
  numbered backups are renamed "for N from the configured backup count down to 1", and
  then the state file itself.
\<close>

definition rotate_as_stated :: "string \<Rightarrow> int \<Rightarrow> 'v world \<Rightarrow> 'v world" where
  "rotate_as_stated path n w = fold (rotate_step path) (rev [0..<nat n + 1]) w"

text \<open>
  The renames of a rotation, in order: from the highest slot down, one for each slot
  that holds a file.
\<close>

definition renames :: "string \<Rightarrow> nat \<Rightarrow> (string \<rightharpoonup> 'v stored) \<Rightarrow> 'v event list" where
  "renames p n fs =
     map (\<lambda>i. Rename (slot p i) (slot p (Suc i)))
       (filter (\<lambda>i. fs (slot p i) \<noteq> None) (rev [0..<n]))"

lemma rotate_step_events_exact:
  "events (rotate_step p i w) =
     events w @ (if files w (slot p i) \<noteq> None then [Rename (slot p i) (slot p (Suc i))] else [])"
  by (auto simp: rotate_step_def os_rename_def emit_def slot_def Let_def split: option.splits)

lemma renames_cong:
  "(\<And>i. i < n \<Longrightarrow> fs (slot p i) = fs' (slot p i)) \<Longrightarrow> renames p n fs = renames p n fs'"
  unfolding renames_def by (rule arg_cong [where f = "map _"], rule filter_cong) auto

lemma renames_Suc:
  "renames p (Suc n) fs =
     (if fs (slot p n) \<noteq> None then [Rename (slot p n) (slot p (Suc n))] else []) @ renames p n fs"
  by (simp add: renames_def)

lemma rot_events_exact: "events (rot p n w) = events w @ renames p n (files w)"
proof (induction n arbitrary: w)
  case 0
  then show ?case by (simp add: renames_def)
next
  case (Suc n)
  let ?w = "rotate_step p n w"
  have same: "files ?w (slot p i) = files w (slot p i)" if "i < n" for i
    using that by (simp add: rotate_step_slot)
  have "events (rot p (Suc n) w) = events ?w @ renames p n (files ?w)"
    using Suc.IH [of ?w] by simp
  also have "renames p n (files ?w) = renames p n (files w)"
    by (rule renames_cong) (rule same)
  finally show ?case
    by (simp add: rotate_step_events_exact renames_Suc)
qed

lemma save_state_events:
  assumes "filename self \<noteq> []"
  shows "events (save_state self now w) =
     events w @ Log DEBUG ''Saving system state to %s'' [filename self]
       # renames (filename self) (nat (num_state_backups self)) (files w)
       @ [Open_wb (filename self), Acquire_mutex,
          Copy_objects (objects self),
          Build_config (editable_config (objects self)),
          Pickle_dump (filename self)
            (Snapshot STATEFILE_VERSION (objects self) (editable_config (objects self))),
          Release_mutex, Close_file (filename self)]"
  using assms
  by (simp add: save_state_def Let_def rotate_rot rot_events_exact emit_def)

text \<open>
  C3, as the code has it. Let \<open>n\<close> be the backup count (0 for a count that is not
  positive). With \<open>n \<ge> 1\<close> one save renames \<open>path.i\<close> to \<open>path.(i+1)\<close> for \<open>i\<close>
  from \<open>n - 1\<close> down to 1 and then \<open>path\<close> to \<open>path.1\<close>, skipping missing files;
  with \<open>n = 0\<close> it renames nothing. Then it writes the new snapshot to \<open>path\<close>.
  The renames it performs are, in this order from the highest slot down, those of the
  slots below \<open>n\<close> that hold a file.
  Afterwards slot 0 holds the new snapshot; for \<open>n \<ge> 1\<close> each slot \<open>0 < i < n\<close>
  holds what slot \<open>i - 1\<close> held, slot \<open>n\<close> holds what slot \<open>n - 1\<close> held (replacing
  the old \<open>path.n\<close>, which survives only if \<open>path.(n-1)\<close> was missing), and no slot
  above \<open>n\<close> is touched; for \<open>n = 0\<close> no backup slot is touched. Hence after \<open>k\<close>
  saves into a directory that had none of these files, exactly \<open>min k (n + 1)\<close> of
  them exist, the slots below \<open>min k (n + 1)\<close>: slot \<open>i\<close> holds the snapshot of the
  \<open>i\<close>-th most recent save, so the newest is at \<open>path\<close> and the oldest kept one at
  slot \<open>min k (n + 1) - 1\<close>, which is \<open>path.n\<close> only once \<open>k > n\<close>. Other files
  are left alone.
\<close>

theorem save_state_rotation:
  fixes w :: "'v world"
  assumes "path \<noteq> []"
    and "\<forall>x\<in>set ss. filename (fst x) = path \<and> num_state_backups (fst x) = n"
    and "\<forall>i. files w (slot path i) = None"
  shows "(\<forall>(self :: 'v system) now (v :: 'v world) i. filename self = path \<and> num_state_backups self = n \<longrightarrow>
            files (save_state self now v) (slot path i) =
              (if i = 0 then Some (written self now)
               else if nat n = 0 then files v (slot path i)
               else if i < nat n then files v (slot path (i - 1))
               else if i = nat n
                 then (case files v (slot path (nat n - 1)) of
                         Some f \<Rightarrow> Some f
                       | None \<Rightarrow> files v (slot path (nat n)))
               else files v (slot path i)))
     \<and> (\<forall>(self :: 'v system) now (v :: 'v world).
            filename self = path \<and> num_state_backups self = n \<longrightarrow>
            events (save_state self now v) =
              events v @ Log DEBUG ''Saving system state to %s'' [path]
                # map (\<lambda>i. Rename (slot path i) (slot path (Suc i)))
                    (filter (\<lambda>i. files v (slot path i) \<noteq> None) (rev [0..<nat n]))
                @ [Open_wb path, Acquire_mutex,
                   Copy_objects (objects self),
                   Build_config (editable_config (objects self)),
                   Pickle_dump path
                     (Snapshot STATEFILE_VERSION (objects self) (editable_config (objects self))),
                   Release_mutex, Close_file path])
     \<and> (\<forall>i. files (save_all ss w) (slot path i) =
            (if i < min (length ss) (nat n + 1)
             then Some (written (fst (ss ! (length ss - 1 - i))) (snd (ss ! (length ss - 1 - i))))
             else None))
     \<and> card {q \<in> range (slot path). files (save_all ss w) q \<noteq> None}
          = min (length ss) (nat n + 1)
     \<and> (\<forall>q. q \<notin> range (slot path) \<longrightarrow> files (save_all ss w) q = files w q)"
proof (intro conjI allI impI)
  fix self :: "'v system" and now and v :: "'v world" and i
  assume "filename self = path \<and> num_state_backups self = n"
  then show "files (save_state self now v) (slot path i) =
              (if i = 0 then Some (written self now)
               else if nat n = 0 then files v (slot path i)
               else if i < nat n then files v (slot path (i - 1))
               else if i = nat n
                 then (case files v (slot path (nat n - 1)) of
                         Some f \<Rightarrow> Some f
                       | None \<Rightarrow> files v (slot path (nat n)))
               else files v (slot path i))"
    using save_state_one [of self now v i] assms(1) by auto
next
  fix self :: "'v system" and now and v :: "'v world"
  assume "filename self = path \<and> num_state_backups self = n"
  then show "events (save_state self now v) =
              events v @ Log DEBUG ''Saving system state to %s'' [path]
                # map (\<lambda>i. Rename (slot path i) (slot path (Suc i)))
                    (filter (\<lambda>i. files v (slot path i) \<noteq> None) (rev [0..<nat n]))
                @ [Open_wb path, Acquire_mutex,
                   Copy_objects (objects self),
                   Build_config (editable_config (objects self)),
                   Pickle_dump path
                     (Snapshot STATEFILE_VERSION (objects self) (editable_config (objects self))),
                   Release_mutex, Close_file path]"
    using save_state_events [of self now v] assms(1) by (auto simp: renames_def)
next
  fix i
  show "files (save_all ss w) (slot path i) =
            (if i < min (length ss) (nat n + 1)
             then Some (written (fst (ss ! (length ss - 1 - i))) (snd (ss ! (length ss - 1 - i))))
             else None)"
    by (rule save_all_slot [OF assms])
next
  have "\<forall>i. (files (save_all ss w) (slot path i) \<noteq> None) = (i < min (length ss) (nat n + 1))"
    by (simp add: save_all_slot [OF assms])
  then show "card {q \<in> range (slot path). files (save_all ss w) q \<noteq> None}
          = min (length ss) (nat n + 1)"
    by (rule card_slots)
next
  fix q assume "q \<notin> range (slot path)"
  then show "files (save_all ss w) q = files w q"
    using save_all_other [OF assms(1,2)] by simp
qed

text \<open>C3, witness: three saves with one backup leave \<open>state\<close> and \<open>state.1\<close>.\<close>

theorem save_state_rotation_witness:
  "files (save_all
      [(\<lparr>filename = ''state'', num_state_backups = 1, objects = [] :: bool sysobj list\<rparr>, 10),
       (\<lparr>filename = ''state'', num_state_backups = 1, objects = []\<rparr>, 20),
       (\<lparr>filename = ''state'', num_state_backups = 1, objects = []\<rparr>, 30)]
      \<lparr>files = Map.empty, events = []\<rparr>) ''state''
     = Some \<lparr>mtime = 30, content = Snapshot 1 [] []\<rparr>
   \<and> files (save_all
      [(\<lparr>filename = ''state'', num_state_backups = 1, objects = [] :: bool sysobj list\<rparr>, 10),
       (\<lparr>filename = ''state'', num_state_backups = 1, objects = []\<rparr>, 20),
       (\<lparr>filename = ''state'', num_state_backups = 1, objects = []\<rparr>, 30)]
      \<lparr>files = Map.empty, events = []\<rparr>) ''state.1''
     = Some \<lparr>mtime = 20, content = Snapshot 1 [] []\<rparr>
   \<and> files (save_all
      [(\<lparr>filename = ''state'', num_state_backups = 1, objects = [] :: bool sysobj list\<rparr>, 10),
       (\<lparr>filename = ''state'', num_state_backups = 1, objects = []\<rparr>, 20),
       (\<lparr>filename = ''state'', num_state_backups = 1, objects = []\<rparr>, 30)]
      \<lparr>files = Map.empty, events = []\<rparr>) ''state.2''
     = None
   \<and> card {q \<in> range (slot ''state''). files (save_all
      [(\<lparr>filename = ''state'', num_state_backups = 1, objects = [] :: bool sysobj list\<rparr>, 10),
       (\<lparr>filename = ''state'', num_state_backups = 1, objects = []\<rparr>, 20),
       (\<lparr>filename = ''state'', num_state_backups = 1, objects = []\<rparr>, 30)]
      \<lparr>files = Map.empty, events = []\<rparr>) q \<noteq> None} = 2"
proof -
  let ?s = "\<lparr>filename = ''state'', num_state_backups = 1, objects = [] :: bool sysobj list\<rparr>"
  let ?ss = "[(?s, 10), (?s, 20), (?s, 30 :: int)]"
  let ?w = "\<lparr>files = Map.empty :: string \<rightharpoonup> bool stored, events = []\<rparr>"
  have h1: "''state'' \<noteq> []" by simp
  have h2: "\<forall>x\<in>set ?ss. filename (fst x) = ''state'' \<and> num_state_backups (fst x) = 1" by simp
  have h3: "\<forall>i. files ?w (slot ''state'' i) = None" by simp
  note r = save_state_rotation [OF h1 h2 h3]
  from r have at: "files (save_all ?ss ?w) (slot ''state'' i) =
            (if i < min (length ?ss) (nat 1 + 1)
             then Some (written (fst (?ss ! (length ?ss - 1 - i))) (snd (?ss ! (length ?ss - 1 - i))))
             else None)" for i
    by blast
  from r have c: "card {q \<in> range (slot ''state''). files (save_all ?ss ?w) q \<noteq> None}
          = min (length ?ss) (nat 1 + 1)"
    by blast
  have s1: "slot ''state'' (Suc 0) = ''state.1''" by (simp add: slot_def numbered_S0)
  have s2: "slot ''state'' 2 = ''state.2''" by (simp add: slot_def numbered_2)
  have cfg: "editable_config ([] :: bool sysobj list) = []" by (simp add: editable_config_def)
  have "files (save_all ?ss ?w) ''state'' = Some \<lparr>mtime = 30, content = Snapshot 1 [] []\<rparr>"
    using at [of 0] by (simp add: written_def STATEFILE_VERSION_def cfg)
  moreover have "files (save_all ?ss ?w) ''state.1'' = Some \<lparr>mtime = 20, content = Snapshot 1 [] []\<rparr>"
    using at [of 1] by (simp add: s1 written_def STATEFILE_VERSION_def cfg)
  moreover have "files (save_all ?ss ?w) ''state.2'' = None"
    using at [of 2] by (simp add: s2)
  moreover have "card {q \<in> range (slot ''state''). files (save_all ?ss ?w) q \<noteq> None} = 2"
    using c by simp
  ultimately show ?thesis by blast
qed

text \<open>
  C3, counterexample to the rotation as stated: with a backup count of 1 and both
  \<open>state\<close> and \<open>state.1\<close> present, the code never creates \<open>state.2\<close> (the old
  \<open>state.1\<close> is replaced), whereas renaming \<open>path.N\<close> for \<open>N\<close> from the count down
  to 1 would move \<open>state.1\<close> there.
\<close>

theorem rotation_as_stated_counterexample:
  "files (rotate ''state'' 1
            \<lparr>files = [''state'' \<mapsto> \<lparr>mtime = 2, content = Snapshot 1 [] ([] :: bool config)\<rparr>,
                      ''state.1'' \<mapsto> \<lparr>mtime = 1, content = Snapshot 1 [] []\<rparr>],
             events = []\<rparr>) ''state.2'' = None
   \<and> files (rotate_as_stated ''state'' 1
            \<lparr>files = [''state'' \<mapsto> \<lparr>mtime = 2, content = Snapshot 1 [] ([] :: bool config)\<rparr>,
                      ''state.1'' \<mapsto> \<lparr>mtime = 1, content = Snapshot 1 [] []\<rparr>],
             events = []\<rparr>) ''state.2'' = Some \<lparr>mtime = 1, content = Snapshot 1 [] []\<rparr>"
  by (simp add: rotate_def rotate_as_stated_def rotate_step_def os_rename_def emit_def
      numbered_S0 numbered_SS0 Let_def)

section \<open>\<open>save_state\<close> without a file name\<close>

text \<open>
  C10. If \<open>System.filename\<close> is empty, \<open>save_state\<close> logs one error and returns: the
  files are exactly as before, and the only effect recorded is the log record, so no
  rename, no open and no dump took place.
\<close>

theorem save_state_without_filename:
  "filename self = [] \<Longrightarrow>
     files (save_state self now w) = files w
   \<and> events (save_state self now w) =
       events w @ [Log ERROR ''Filename not specified. Could not save state'' []]"
  by (simp add: save_state_def emit_def)

text \<open>C10, witness: an existing file \<open>state\<close> is left as it is.\<close>

theorem save_state_without_filename_witness:
  "files (save_state \<lparr>filename = [], num_state_backups = 5, objects = []\<rparr> 3
            \<lparr>files = [''state'' \<mapsto> \<lparr>mtime = 1, content = Empty :: bool content\<rparr>],
             events = []\<rparr>)
     = [''state'' \<mapsto> \<lparr>mtime = 1, content = Empty\<rparr>]
   \<and> events (save_state \<lparr>filename = [], num_state_backups = 5, objects = []\<rparr> 3
            \<lparr>files = [''state'' \<mapsto> \<lparr>mtime = 1, content = Empty :: bool content\<rparr>],
             events = []\<rparr>)
     = [Log ERROR ''Filename not specified. Could not save state'' []]"
  using save_state_without_filename
    [of "\<lparr>filename = [], num_state_backups = 5, objects = []\<rparr>" 3
        "\<lparr>files = [''state'' \<mapsto> \<lparr>mtime = 1, content = Empty :: bool content\<rparr>],
          events = []\<rparr>"]
  by simp

section \<open>The configuration written by \<open>save_state\<close>\<close>

lemma update_fresh: "k \<notin> fst ` set al \<Longrightarrow> AList.update k v al = al @ [(k, v)]"
  by (induction al) auto

lemma fold_update_distinct:
  "distinct (map obj_name xs) \<Longrightarrow> fst ` set cfg \<inter> obj_name ` set xs = {} \<Longrightarrow>
   fold (\<lambda>obj cfg. AList.update (obj_name obj) (obj_status obj) cfg) xs cfg
     = cfg @ map (\<lambda>obj. (obj_name obj, obj_status obj)) xs"
proof (induction xs arbitrary: cfg)
  case Nil
  then show ?case by simp
next
  case (Cons x xs)
  from Cons.prems have fresh: "obj_name x \<notin> fst ` set cfg" by auto
  let ?cfg = "cfg @ [(obj_name x, obj_status x)]"
  have "fst ` set ?cfg \<inter> obj_name ` set xs = {}" using Cons.prems by auto
  moreover have "distinct (map obj_name xs)" using Cons.prems by simp
  ultimately show ?case using Cons.IH [of ?cfg] fresh by (simp add: update_fresh)
qed

lemma editable_config_distinct:
  "distinct (map obj_name (filter editable objs)) \<Longrightarrow>
   editable_config objs = map (\<lambda>obj. (obj_name obj, obj_status obj)) (filter editable objs)"
  using fold_update_distinct [of "filter editable objs" "[]"]
  by (simp add: editable_config_def)

lemma editable_iff: "editable obj \<longleftrightarrow> user_editable obj = Some True"
  by (simp add: editable_def split: option.splits)

lemma save_state_written:
  "filename self \<noteq> [] \<Longrightarrow>
   files (save_state self now w) (filename self) = Some (written self now)"
  by (simp add: save_state_files)

text \<open>
  C4. In a system whose objects have distinct names (the namespace's invariant), the
  snapshot that \<open>save_state\<close> writes holds a configuration whose entries are exactly
  the pairs (name, status) of the objects whose \<open>user_editable\<close> attribute is true,
  one entry per name; an object without the attribute, or with a false one, has no
  entry. Nothing but names and status values is in the configuration.
\<close>

theorem save_state_editable_config:
  assumes "filename self \<noteq> []" and "distinct (map obj_name (objects self))"
  shows "\<exists>cfg.
      files (save_state self now w) (filename self)
        = Some \<lparr>mtime = now, content = Snapshot STATEFILE_VERSION (objects self) cfg\<rparr>
    \<and> set cfg = {(obj_name obj, obj_status obj) | obj.
                   obj \<in> set (objects self) \<and> user_editable obj = Some True}
    \<and> distinct (map fst cfg)
    \<and> (\<forall>obj\<in>set (objects self).
          user_editable obj \<noteq> Some True \<longrightarrow> obj_name obj \<notin> fst ` set cfg)"
proof -
  let ?objs = "objects self"
  let ?cfg = "editable_config ?objs"
  have d: "distinct (map obj_name (filter editable ?objs))"
    using assms(2) by (rule distinct_map_filter)
  have cfg: "?cfg = map (\<lambda>obj. (obj_name obj, obj_status obj)) (filter editable ?objs)"
    using d by (rule editable_config_distinct)
  have inj: "inj_on obj_name (set ?objs)"
    using assms(2) by (simp add: distinct_map)
  have 1: "files (save_state self now w) (filename self)
        = Some \<lparr>mtime = now, content = Snapshot STATEFILE_VERSION ?objs ?cfg\<rparr>"
    using assms(1) by (simp add: save_state_written written_def)
  have 2: "set ?cfg = {(obj_name obj, obj_status obj) | obj.
                   obj \<in> set ?objs \<and> user_editable obj = Some True}"
    by (auto simp: cfg editable_iff)
  have 3: "distinct (map fst ?cfg)"
    using d by (simp add: cfg comp_def)
  have 4: "\<forall>obj\<in>set ?objs. user_editable obj \<noteq> Some True \<longrightarrow> obj_name obj \<notin> fst ` set ?cfg"
  proof (intro ballI impI notI)
    fix obj assume o: "obj \<in> set ?objs" "user_editable obj \<noteq> Some True"
      and "obj_name obj \<in> fst ` set ?cfg"
    then obtain obj' where o': "obj' \<in> set ?objs" "editable obj'" "obj_name obj' = obj_name obj"
      by (auto simp: cfg)
    with inj o(1) have "obj' = obj" by (auto dest: inj_onD)
    with o' o(2) show False by (simp add: editable_iff)
  qed
  from 1 2 3 4 show ?thesis by blast
qed

text \<open>C4, witness: of three objects only the editable \<open>lamp\<close> is in the configuration.\<close>

theorem save_state_editable_config_witness:
  "\<exists>cfg. files (save_state
        \<lparr>filename = ''state'', num_state_backups = 0,
         objects = [\<lparr>obj_name = ''lamp'', obj_status = True, user_editable = Some True\<rparr>,
                    \<lparr>obj_name = ''door'', obj_status = False, user_editable = Some False\<rparr>,
                    \<lparr>obj_name = ''motion'', obj_status = True, user_editable = None\<rparr>]\<rparr> 3
        \<lparr>files = Map.empty, events = []\<rparr>) ''state''
      = Some \<lparr>mtime = 3, content = Snapshot 1
           [\<lparr>obj_name = ''lamp'', obj_status = True, user_editable = Some True\<rparr>,
            \<lparr>obj_name = ''door'', obj_status = False, user_editable = Some False\<rparr>,
            \<lparr>obj_name = ''motion'', obj_status = True, user_editable = None\<rparr>] cfg\<rparr>
    \<and> set cfg = {(''lamp'', True)}"
proof -
  let ?self = "\<lparr>filename = ''state'', num_state_backups = 0,
         objects = [\<lparr>obj_name = ''lamp'', obj_status = True, user_editable = Some True\<rparr>,
                    \<lparr>obj_name = ''door'', obj_status = False, user_editable = Some False\<rparr>,
                    \<lparr>obj_name = ''motion'', obj_status = True, user_editable = None\<rparr>]\<rparr>"
  have h1: "filename ?self \<noteq> []" by simp
  have h2: "distinct (map obj_name (objects ?self))" by simp
  from save_state_editable_config [OF h1 h2, of 3 "\<lparr>files = Map.empty, events = []\<rparr>"]
  obtain cfg where
    "files (save_state ?self 3 \<lparr>files = Map.empty, events = []\<rparr>) (filename ?self)
        = Some \<lparr>mtime = 3, content = Snapshot STATEFILE_VERSION (objects ?self) cfg\<rparr>"
    "set cfg = {(obj_name obj, obj_status obj) | obj.
                   obj \<in> set (objects ?self) \<and> user_editable obj = Some True}"
    by blast
  moreover have "{(obj_name obj, obj_status obj) | obj.
                   obj \<in> set (objects ?self) \<and> user_editable obj = Some True} = {(''lamp'', True)}"
    by (auto intro: exI [of _ "\<lparr>obj_name = ''lamp'', obj_status = True, user_editable = Some True\<rparr>"])
  ultimately show ?thesis by (simp add: STATEFILE_VERSION_def)
qed

section \<open>The mutex section of \<open>save_state\<close>\<close>

text \<open>
  The effects performed while the worker queue's mutex is held: those after an
  \<open>Acquire_mutex\<close> and before the next \<open>Release_mutex\<close>. The first argument says
  whether the mutex is held at the start of the trace.
\<close>

fun guarded_from :: "bool \<Rightarrow> 'v event list \<Rightarrow> 'v event list" where
  "guarded_from held [] = []"
| "guarded_from held (Acquire_mutex # es) = guarded_from True es"
| "guarded_from held (Release_mutex # es) = guarded_from False es"
| "guarded_from held (e # es) = (if held then e # guarded_from held es else guarded_from held es)"

definition is_rename :: "'v event \<Rightarrow> bool" where
  "is_rename e = (case e of Rename a b \<Rightarrow> True | _ \<Rightarrow> False)"

lemma guarded_skip_renames:
  "list_all is_rename rs \<Longrightarrow> guarded_from False (rs @ es) = guarded_from False es"
  by (induction rs) (auto simp: is_rename_def split: event.splits)

lemma rotate_step_events:
  "\<exists>rs. events (rotate_step p i w) = events w @ rs \<and> list_all is_rename rs"
  by (auto simp: rotate_step_def os_rename_def emit_def Let_def is_rename_def split: option.splits)

lemma rot_events: "\<exists>rs. events (rot p n w) = events w @ rs \<and> list_all is_rename rs"
proof (induction n arbitrary: w)
  case 0
  then show ?case by simp
next
  case (Suc n)
  obtain r1 where r1: "events (rotate_step p n w) = events w @ r1" "list_all is_rename r1"
    using rotate_step_events by blast
  obtain r2 where r2: "events (rot p n (rotate_step p n w)) = events (rotate_step p n w) @ r2"
    "list_all is_rename r2"
    using Suc.IH by blast
  from r1 r2 have "events (rot p (Suc n) w) = events w @ (r1 @ r2) \<and> list_all is_rename (r1 @ r2)"
    by simp
  then show ?case by blast
qed

text \<open>
  C5, as the code has it. With a file name, \<open>save_state\<close> logs, renames the backups,
  opens the state file, and only then takes the mutex. While the mutex is held it
  copies the object list, builds the configuration from the copied objects, and
  pickles the snapshot made of both into the file; then it releases the mutex, and
  closes the file last. So the guarded section holds the list copy and also the
  building of the configuration and the serialization into the file; the renames and
  the opening of the file are outside it.
\<close>

theorem save_state_mutex_section:
  assumes "filename self \<noteq> []"
  shows "\<exists>rs. events (save_state self now w) =
            events w @ Log DEBUG ''Saving system state to %s'' [filename self] # rs @
              [Open_wb (filename self), Acquire_mutex,
               Copy_objects (objects self),
               Build_config (editable_config (objects self)),
               Pickle_dump (filename self)
                 (Snapshot STATEFILE_VERSION (objects self) (editable_config (objects self))),
               Release_mutex, Close_file (filename self)]
          \<and> list_all is_rename rs
          \<and> guarded_from False (drop (length (events w)) (events (save_state self now w)))
              = [Copy_objects (objects self),
                 Build_config (editable_config (objects self)),
                 Pickle_dump (filename self)
                   (Snapshot STATEFILE_VERSION (objects self) (editable_config (objects self)))]"
proof -
  let ?f = "filename self"
  let ?w1 = "emit (Log DEBUG ''Saving system state to %s'' [?f]) w"
  let ?tail = "[Open_wb ?f, Acquire_mutex,
               Copy_objects (objects self),
               Build_config (editable_config (objects self)),
               Pickle_dump ?f
                 (Snapshot STATEFILE_VERSION (objects self) (editable_config (objects self))),
               Release_mutex, Close_file ?f]"
  obtain rs where rs: "events (rot ?f (nat (num_state_backups self)) ?w1) = events ?w1 @ rs"
    "list_all is_rename rs"
    using rot_events by blast
  have ev: "events (save_state self now w) =
            events w @ Log DEBUG ''Saving system state to %s'' [?f] # rs @ ?tail"
    using assms rs(1) by (simp add: save_state_def Let_def rotate_rot emit_def)
  have "guarded_from False (drop (length (events w)) (events (save_state self now w)))
          = guarded_from False (rs @ ?tail)"
    by (simp add: ev)
  also have "\<dots> = [Copy_objects (objects self),
                 Build_config (editable_config (objects self)),
                 Pickle_dump ?f
                   (Snapshot STATEFILE_VERSION (objects self) (editable_config (objects self)))]"
    using rs(2) by (simp add: guarded_skip_renames)
  finally show ?thesis using ev rs(2) by blast
qed

text \<open>C5, witness: the guarded section of a save of one editable object to \<open>state\<close>.\<close>

theorem save_state_mutex_section_witness:
  "guarded_from False (events
      (save_state \<lparr>filename = ''state'', num_state_backups = 5,
                   objects = [\<lparr>obj_name = ''lamp'', obj_status = True,
                                user_editable = Some True\<rparr>]\<rparr> 3
         \<lparr>files = Map.empty, events = []\<rparr>))
   = [Copy_objects [\<lparr>obj_name = ''lamp'', obj_status = True, user_editable = Some True\<rparr>],
      Build_config [(''lamp'', True)],
      Pickle_dump ''state''
        (Snapshot 1 [\<lparr>obj_name = ''lamp'', obj_status = True, user_editable = Some True\<rparr>]
           [(''lamp'', True)])]"
proof -
  let ?self = "\<lparr>filename = ''state'', num_state_backups = 5,
                   objects = [\<lparr>obj_name = ''lamp'', obj_status = True,
                                user_editable = Some True\<rparr>]\<rparr>"
  have h: "filename ?self \<noteq> []" by simp
  have cfg: "editable_config
      [\<lparr>obj_name = ''lamp'', obj_status = True, user_editable = Some True\<rparr>]
        = [(''lamp'', True)]"
    by (simp add: editable_config_def editable_def)
  from save_state_mutex_section [OF h, of 3 "\<lparr>files = Map.empty, events = []\<rparr>"]
  show ?thesis by (auto simp: cfg STATEFILE_VERSION_def guarded_skip_renames)
qed

text \<open>
  C5, counterexample to "the dump is performed outside the guarded section": in a save
  to \<open>state\<close> the dump is among the effects performed while the mutex is held.
\<close>

theorem mutex_section_counterexample:
  "Pickle_dump ''state'' (Snapshot 1 [] [])
     \<in> set (guarded_from False (events
      (save_state \<lparr>filename = ''state'', num_state_backups = 1,
                   objects = [] :: bool sysobj list\<rparr> 3
         \<lparr>files = Map.empty, events = []\<rparr>)))"
  by (simp add: save_state_def rotate_def rotate_step_def os_rename_def emit_def Let_def
      editable_config_def STATEFILE_VERSION_def)


section \<open>\<open>System.__init__\<close> and \<open>System.load_or_create\<close>\<close>

text \<open>
  What \<open>System.__init__\<close> takes from the class it constructs and from code that is
  not among the sources.
  \<^item> \<open>set_system load_state\<close>: the objects that \<open>Namespace.set_system(load_state)\<close>
    leaves registered, from the loaded list when there is one and from the static
    definitions of the class otherwise.
  \<^item> \<open>own_attribute name\<close>: what ordinary attribute lookup on the system finds for
    \<open>name\<close>, before \<open>__getattr__\<close> consults the namespace: nothing (\<open>None\<close>), a
    value on which a \<open>status\<close> attribute can be set (\<open>Some True\<close>; no registered
    object changes), or a value that rejects it, such as a string, a number or a
    method (\<open>Some False\<close>; the assignment raises \<open>AttributeError\<close>).
  \<open>load\<close> constructs the class \<open>System\<close> and \<open>create\<close> the class \<open>cls\<close>; one
  description serves both.
\<close>

record 'v sysclass =
  set_system :: "'v sysobj list option \<Rightarrow> 'v sysobj list"
  own_attribute :: "string \<Rightarrow> bool option"

text \<open>Setting the status of the registered object of a given name.\<close>

definition set_status :: "string \<Rightarrow> 'v \<Rightarrow> 'v sysobj list \<Rightarrow> 'v sysobj list" where
  "set_status obj_name' status objs =
     map (\<lambda>obj. if obj_name obj = obj_name' then obj\<lparr>obj_status := status\<rparr> else obj) objs"

text \<open>
  The loop \<^verbatim>\<open>for obj_name, status in load_config.items()\<close> with its body
  \<^verbatim>\<open>if hasattr(self, obj_name): getattr(self, obj_name).status = status\<close>. A name
  that is neither an attribute nor registered fails \<open>hasattr\<close> and is skipped.
\<close>

fun load_config_items ::
  "(string \<Rightarrow> bool option) \<Rightarrow> 'v config \<Rightarrow> 'v sysobj list \<Rightarrow> error + 'v sysobj list" where
  "load_config_items own [] objs = Inr objs"
| "load_config_items own ((obj_name', status) # rest) objs =
     (case own obj_name' of
        Some True \<Rightarrow> load_config_items own rest objs
      | Some False \<Rightarrow> Inl AttributeError
      | None \<Rightarrow> load_config_items own rest (set_status obj_name' status objs))"

text \<open>
  \<open>System.__init__(load_state, load_config, **traits)\<close>, as far as the snapshot code
  is concerned: the namespace is set up, and a non-empty \<open>load_config\<close> is applied.
  Logging, services and the worker thread started by \<open>__init__\<close> are not part of the
  model, and of the traits passed on as keyword arguments only \<open>num_state_backups\<close>
  is kept.
\<close>

definition System_init ::
  "'v sysclass \<Rightarrow> 'v sysobj list option \<Rightarrow> 'v config option \<Rightarrow> string \<Rightarrow> int
     \<Rightarrow> error + 'v system" where
  "System_init cls load_state load_config fname backups =
     (let objs = set_system cls load_state
      in case (case load_config of
                 None \<Rightarrow> Inr objs
               | Some cfg \<Rightarrow>
                   if cfg = [] then Inr objs
                   else load_config_items (own_attribute cls) cfg objs) of
           Inl e \<Rightarrow> Inl e
         | Inr objs \<Rightarrow>
             Inr \<lparr>filename = fname, num_state_backups = backups, objects = objs\<rparr>)"

text \<open>
  What \<open>load_or_create\<close> reads from its surroundings: the files, the modification
  time of the running script (\<^verbatim>\<open>sys.argv[0]\<close>), the two command-line flags that
  \<^verbatim>\<open>argparse\<close> finds, and the lines that standard input delivers to \<^verbatim>\<open>input()\<close>
  before it ends.
\<close>

record 'v env =
  env_files :: "string \<rightharpoonup> 'v stored"
  time_program :: int
  args_no_input :: bool
  args_create_new :: bool
  answers :: "string list"

text \<open>
  A result: the lines printed, and the exception raised or the system returned.
\<close>

type_synonym 'v outcome = "string list \<times> (error + 'v system)"

definition printing :: "string list \<Rightarrow> 'v outcome \<Rightarrow> 'v outcome" where
  "printing ls r = (ls @ fst r, snd r)"

text \<open>The nested function \<open>load_pickle\<close>.\<close>

definition load_pickle :: "(string \<rightharpoonup> 'v stored) \<Rightarrow> string \<Rightarrow> error + ('v sysobj list \<times> 'v config)" where
  "load_pickle fs fname =
     (case fs fname of
        None \<Rightarrow> Inl FileNotFoundError
      | Some f \<Rightarrow>
          (case content f of
             Empty \<Rightarrow> Inl EOFError
           | Other e \<Rightarrow> Inl e
           | Snapshot statefile_version obj_list config \<Rightarrow>
               if statefile_version \<noteq> STATEFILE_VERSION
               then Inl (RuntimeError (''Wrong statefile version, please remove state file '' @ fname))
               else Inr (obj_list, config)))"

text \<open>The nested function \<open>load\<close>.\<close>

definition load ::
  "'v sysclass \<Rightarrow> (string \<rightharpoonup> 'v stored) \<Rightarrow> string \<Rightarrow> int \<Rightarrow> 'v outcome" where
  "load cls fs fname backups =
     ([''Loading '' @ fname],
      case load_pickle fs fname of
        Inl e \<Rightarrow> Inl e
      | Inr (obj_list, config) \<Rightarrow> System_init cls (Some obj_list) None fname backups)"

text \<open>
  The nested function \<open>create\<close>: only \<open>FileNotFoundError\<close> is caught around
  \<open>load_pickle\<close>.
\<close>

definition create ::
  "'v sysclass \<Rightarrow> (string \<rightharpoonup> 'v stored) \<Rightarrow> string \<Rightarrow> int \<Rightarrow> 'v outcome" where
  "create cls fs fname backups =
     ([''Creating new system''],
      if fname \<noteq> [] then
        (case load_pickle fs fname of
           Inr (obj_list, config) \<Rightarrow> System_init cls None (Some config) fname backups
         | Inl FileNotFoundError \<Rightarrow> System_init cls None None fname backups
         | Inl e \<Rightarrow> Inl e)
      else System_init cls None None fname backups)"

text \<open>
  The \<^verbatim>\<open>while True\<close> loop around \<^verbatim>\<open>input\<close>: each round prints the question and
  reads a line; \<open>y\<close> creates, \<open>n\<close> loads, anything else asks again, and the end of
  the input raises \<open>EOFError\<close>.
\<close>

fun ask ::
  "'v sysclass \<Rightarrow> (string \<rightharpoonup> 'v stored) \<Rightarrow> string \<Rightarrow> int \<Rightarrow> string list \<Rightarrow> 'v outcome" where
  "ask cls fs fname backups [] =
     ([''Program file more recent. Do you want to load it? (y/n) ''], Inl EOFError)"
| "ask cls fs fname backups (answer # rest) =
     printing [''Program file more recent. Do you want to load it? (y/n) '']
       (if answer = ''y'' then create cls fs fname backups
        else if answer = ''n'' then load cls fs fname backups
        else ask cls fs fname backups rest)"

text \<open>
  \<open>load_or_create(cls, filename, no_input, create_new, **kwargs)\<close> for a
  \<open>filename\<close> that is a string (possibly empty).
\<close>

definition load_or_create ::
  "'v sysclass \<Rightarrow> 'v env \<Rightarrow> string \<Rightarrow> bool \<Rightarrow> bool \<Rightarrow> int \<Rightarrow> 'v outcome" where
  "load_or_create cls env fname no_input create_new backups =
     (let out1 = (if args_no_input env then [''Parameter --no_input was given''] else []);
          no_input = (if args_no_input env then True else no_input);
          out2 = (if args_create_new env then [''Parameter --create_new was given''] else []);
          create_new = (if args_create_new env then True else create_new);
          no_input = (if args_create_new env then True else no_input);
          fs = env_files env
      in printing (out1 @ out2)
        (case (if fname \<noteq> [] then fs fname else None) of
           Some f \<Rightarrow>
             if mtime f > time_program env \<and> \<not> create_new then load cls fs fname backups
             else if no_input then
               printing [''Program file more recent. Loading that instead.'']
                 (create cls fs fname backups)
             else ask cls fs fname backups (answers env)
         | None \<Rightarrow> create cls fs fname backups))"

lemma snd_printing [simp]: "snd (printing ls r) = snd r"
  by (simp add: printing_def)

lemma printing_nothing [simp]: "printing [] r = r"
  by (simp add: printing_def)

lemma load_pickle_mismatch:
  assumes "fs fname = Some f" and "content f = Snapshot v obj_list config"
    and "v \<noteq> STATEFILE_VERSION"
  shows "load_pickle fs fname
     = Inl (RuntimeError (''Wrong statefile version, please remove state file '' @ fname))"
  using assms by (simp add: load_pickle_def)

lemma ask_failing:
  assumes "snd (load cls fs fname backups) = Inl e"
    and "snd (create cls fs fname backups) = Inl e"
  shows "snd (ask cls fs fname backups as) =
     (if \<exists>a\<in>set as. a = ''y'' \<or> a = ''n'' then Inl e else Inl EOFError)"
  using assms by (induction as) auto

text \<open>
  C1. Let the state file exist and hold a snapshot whose recorded version differs from
  \<open>STATEFILE_VERSION\<close>. Then \<open>load_pickle\<close> raises the \<open>RuntimeError\<close> that asks
  for the file to be removed, and so do \<open>load\<close> and \<open>create\<close> (which catches
  \<open>FileNotFoundError\<close> only). Every call of \<open>load_or_create\<close> ends in an exception
  and returns no system: the \<open>RuntimeError\<close> as soon as the decision between loading
  and creating is made (without a question, or by an answer \<open>y\<close> or \<open>n\<close>), and
  \<open>EOFError\<close> if the input ends before such an answer.
\<close>

theorem statefile_version_mismatch:
  assumes "fname \<noteq> []" and "env_files env fname = Some f"
    and "content f = Snapshot v obj_list config" and "v \<noteq> STATEFILE_VERSION"
  shows "load_pickle (env_files env) fname
           = Inl (RuntimeError (''Wrong statefile version, please remove state file '' @ fname))
     \<and> snd (load cls (env_files env) fname backups)
           = Inl (RuntimeError (''Wrong statefile version, please remove state file '' @ fname))
     \<and> snd (create cls (env_files env) fname backups)
           = Inl (RuntimeError (''Wrong statefile version, please remove state file '' @ fname))
     \<and> snd (load_or_create cls env fname no_input create_new backups)
           = (if no_input \<or> args_no_input env \<or> args_create_new env
                 \<or> (mtime f > time_program env \<and> \<not> create_new)
                 \<or> (\<exists>a\<in>set (answers env). a = ''y'' \<or> a = ''n'')
              then Inl (RuntimeError (''Wrong statefile version, please remove state file '' @ fname))
              else Inl EOFError)
     \<and> (\<forall>system. snd (load_or_create cls env fname no_input create_new backups)
           \<noteq> Inr system)"
proof -
  let ?e = "RuntimeError (''Wrong statefile version, please remove state file '' @ fname)"
  have lp: "load_pickle (env_files env) fname = Inl ?e"
    using assms(2-4) by (rule load_pickle_mismatch)
  have l: "snd (load cls (env_files env) fname backups) = Inl ?e"
    by (simp add: load_def lp)
  have c: "snd (create cls (env_files env) fname backups) = Inl ?e"
    using assms(1) by (simp add: create_def lp)
  have a: "snd (ask cls (env_files env) fname backups (answers env)) =
     (if \<exists>a\<in>set (answers env). a = ''y'' \<or> a = ''n'' then Inl ?e else Inl EOFError)"
    using l c by (rule ask_failing)
  have r: "snd (load_or_create cls env fname no_input create_new backups)
           = (if no_input \<or> args_no_input env \<or> args_create_new env
                 \<or> (mtime f > time_program env \<and> \<not> create_new)
                 \<or> (\<exists>a\<in>set (answers env). a = ''y'' \<or> a = ''n'')
              then Inl ?e else Inl EOFError)"
    using assms(1,2) l c a by (auto simp: load_or_create_def Let_def)
  from r have "\<forall>system. snd (load_or_create cls env fname no_input create_new backups)
           \<noteq> Inr system"
    by (simp split: if_splits)
  with lp l c r show ?thesis by blast
qed

text \<open>C1, witness: a snapshot of version 2, with \<open>no_input\<close> set.\<close>

theorem statefile_version_mismatch_witness:
  "snd (load_or_create
      \<lparr>set_system = (\<lambda>load_state. case load_state of None \<Rightarrow> [] | Some l \<Rightarrow> l),
       own_attribute = (\<lambda>name. None)\<rparr>
      \<lparr>env_files = [''state'' \<mapsto> \<lparr>mtime = 5, content = Snapshot 2 [] ([] :: bool config)\<rparr>],
       time_program = 1, args_no_input = False, args_create_new = False, answers = []\<rparr>
      ''state'' True False 5)
   = Inl (RuntimeError ''Wrong statefile version, please remove state file state'')"
proof -
  let ?f = "\<lparr>mtime = 5, content = Snapshot 2 [] ([] :: bool config)\<rparr>"
  let ?env = "\<lparr>env_files = [''state'' \<mapsto> ?f],
       time_program = 1, args_no_input = False, args_create_new = False, answers = []\<rparr>"
  have h1: "''state'' \<noteq> []" by simp
  have h2: "env_files ?env ''state'' = Some ?f" by simp
  have h3: "content ?f = Snapshot 2 [] []" by simp
  have h4: "(2 :: int) \<noteq> STATEFILE_VERSION" by (simp add: STATEFILE_VERSION_def)
  from statefile_version_mismatch [OF h1 h2 h3 h4, of _ 5 True False]
  show ?thesis by simp
qed

text \<open>
  What the configuration loop does to one object: the last entry for its name among
  the entries that resolve through the namespace gives its status.
\<close>

definition configured :: "(string \<Rightarrow> bool option) \<Rightarrow> 'v config \<Rightarrow> 'v sysobj \<Rightarrow> 'v sysobj" where
  "configured own cfg obj =
     (case map_of (rev (filter (\<lambda>entry. own (fst entry) = None) cfg)) (obj_name obj) of
        Some v \<Rightarrow> obj\<lparr>obj_status := v\<rparr>
      | None \<Rightarrow> obj)"

lemma obj_name_configured [simp]: "obj_name (configured own cfg obj) = obj_name obj"
  by (simp add: configured_def split: option.splits)

lemma configured_Nil [simp]: "configured own [] obj = obj"
  by (simp add: configured_def)










text \<open>
  A configuration with the key \<open>name\<close>, which is a string attribute of every
  system, makes the construction fail.
\<close>

lemma create_with_attribute_key:
  "snd (create
      \<lparr>set_system = (\<lambda>load_state. case load_state of
          None \<Rightarrow> [\<lparr>obj_name = ''lamp'', obj_status = False, user_editable = Some True\<rparr>]
        | Some l \<Rightarrow> l),
       own_attribute = (\<lambda>name. if name = ''name'' then Some False else None)\<rparr>
      [''state'' \<mapsto> \<lparr>mtime = 5, content = Snapshot 1 [] [(''lamp'', True), (''name'', False)]\<rparr>]
      ''state'' 5)
   = Inl AttributeError"
  by (simp add: create_def load_pickle_def STATEFILE_VERSION_def System_init_def)


section \<open>\<open>System.cmd_exec\<close>\<close>

text \<open>
  The exceptions that the handlers of \<open>cmd_exec\<close> tell apart: \<open>SyntaxError\<close> (with
  its subclasses), \<open>ExitException\<close>, any other exception derived from \<open>Exception\<close>
  (with its message), and exceptions derived from \<open>BaseException\<close> only, such as
  \<open>KeyboardInterrupt\<close> and \<open>SystemExit\<close>.
\<close>

datatype pyexc =
  SyntaxError
| ExitException
| OtherException string
| BaseOnly string

text \<open>What \<open>cmd_exec\<close> returns: \<open>None\<close> or a boolean.\<close>

datatype retval = RNone | RBool bool

text \<open>The arguments handed to the logger: strings, values, dictionaries, exceptions.\<close>

datatype 'v logarg = Str string | Val 'v | Dict "(string \<times> 'v) list" | Exc pyexc

type_synonym 'v logrec = "level \<times> string \<times> 'v logarg list"

text \<open>
  What running Python code does is not decided by \<open>cmd_exec\<close>; it is a parameter.
  Values of type \<open>'v\<close> are object references (their equality is \<^verbatim>\<open>is\<close>).
  \<^item> \<open>py_eval cmd ns\<close> and \<open>py_exec cmd ns\<close>: \<^verbatim>\<open>eval(cmd, ns)\<close> and
    \<^verbatim>\<open>exec(cmd, ns)\<close>, giving the value or the exception raised, and the dictionary
    \<open>ns\<close> as the code left it;
  \<^item> \<open>needs_setup r\<close>: \<^verbatim>\<open>isinstance(r, SystemObject) and not r.system\<close>;
  \<^item> \<open>setup_system r\<close>: the exception raised by \<^verbatim>\<open>r.setup_system(self)\<close>, if any;
  \<^item> \<open>is_callable r\<close> and \<open>call r\<close>: \<^verbatim>\<open>callable(r)\<close> and \<^verbatim>\<open>r()\<close>.
  What the evaluated code does to the system beyond the dictionary \<open>ns\<close> is outside
  the model.
\<close>

record 'v interp =
  py_eval :: "string \<Rightarrow> (string \<times> 'v) list \<Rightarrow> (pyexc + 'v) \<times> (string \<times> 'v) list"
  py_exec :: "string \<Rightarrow> (string \<times> 'v) list \<Rightarrow> pyexc option \<times> (string \<times> 'v) list"
  needs_setup :: "'v \<Rightarrow> bool"
  setup_system :: "'v \<Rightarrow> pyexc option"
  is_callable :: "'v \<Rightarrow> bool"
  call :: "'v \<Rightarrow> pyexc + 'v"

text \<open>The part of the system that \<open>cmd_exec\<close> reads and writes.\<close>

record 'v cmdstate =
  sys_namespace :: "(string \<times> 'v) list"
  sys_log :: "'v logrec list"

definition info :: "string \<Rightarrow> 'v logarg list \<Rightarrow> 'v cmdstate \<Rightarrow> 'v cmdstate" where
  "info fmt args st = st\<lparr>sys_log := sys_log st @ [(INFO, fmt, args)]\<rparr>"

text \<open>\<^verbatim>\<open>dict(items)\<close>: a later item replaces the value of an equal key.\<close>

definition dict_of :: "(string \<times> 'v) list \<Rightarrow> (string \<times> 'v) list" where
  "dict_of items = fold (\<lambda>(k, v) d. AList.update k v d) items []"

text \<open>
  The property \<open>cmd_namespace\<close>: the dictionary of the \<open>automate\<close> package (a
  parameter) followed by the namespace.
\<close>

definition cmd_namespace :: "(string \<times> 'v) list \<Rightarrow> 'v cmdstate \<Rightarrow> (string \<times> 'v) list" where
  "cmd_namespace automate_dict st = dict_of (automate_dict @ sys_namespace st)"

text \<open>
  The loop after \<^verbatim>\<open>exec\<close>: every key of \<open>ns\<close> that is new or bound to another
  object than in \<open>nscopy\<close> is deleted from the namespace if present, set in the
  namespace, and recorded in \<open>r\<close>. The namespace is treated as a dictionary.
\<close>

definition store_item ::
  "(string \<times> 'v) list \<Rightarrow> string \<times> 'v \<Rightarrow> (string \<times> 'v) list \<times> (string \<times> 'v) list
     \<Rightarrow> (string \<times> 'v) list \<times> (string \<times> 'v) list" where
  "store_item nscopy item acc =
     (case item of (key, val) \<Rightarrow>
        (case acc of (nsp, r) \<Rightarrow>
           if (case map_of nscopy key of None \<Rightarrow> True | Some old \<Rightarrow> val \<noteq> old)
           then (AList.delete key nsp @ [(key, val)], AList.update key val r)
           else (nsp, r)))"

text \<open>
  The handler of \<open>SyntaxError\<close>: the command is run as statements. The result is the
  exception that leaves the handler, or the final \<open>rval\<close>.
\<close>

definition exec_branch ::
  "'v interp \<Rightarrow> string \<Rightarrow> (string \<times> 'v) list \<Rightarrow> (string \<times> 'v) list \<Rightarrow> 'v cmdstate
     \<Rightarrow> (pyexc + retval) \<times> 'v cmdstate" where
  "exec_branch I cmd nscopy ns st =
     (case py_exec I cmd ns of (raised, ns') \<Rightarrow>
        let after = (\<lambda>rval st.
              (case fold (store_item nscopy) ns' (sys_namespace st, []) of (nsp, r) \<Rightarrow>
                 (Inr (RBool rval),
                  info ''Set items in namespace: %s'' [Dict r] (st\<lparr>sys_namespace := nsp\<rparr>))))
        in case raised of
             None \<Rightarrow> after True (info ''Exec: %s'' [Str cmd] st)
           | Some ExitException \<Rightarrow> (Inl ExitException, st)
           | Some (BaseOnly m) \<Rightarrow> (Inl (BaseOnly m), st)
           | Some e \<Rightarrow> after False (info ''Failed to exec cmd %s: %s.'' [Str cmd, Exc e] st))"

text \<open>
  The body of the outer \<^verbatim>\<open>try\<close>: the exception it raises, or the final command
  text and value after both were logged.
\<close>

definition eval_branch ::
  "'v interp \<Rightarrow> string \<Rightarrow> (string \<times> 'v) list \<Rightarrow> 'v cmdstate
     \<Rightarrow> (pyexc + unit) \<times> (string \<times> 'v) list \<times> 'v cmdstate" where
  "eval_branch I cmd ns st =
     (case py_eval I cmd ns of
        (Inl e, ns') \<Rightarrow> (Inl e, ns', st)
      | (Inr r, ns') \<Rightarrow>
          (case (if needs_setup I r then setup_system I r else None) of
             Some e \<Rightarrow> (Inl e, ns', st)
           | None \<Rightarrow>
               (case (if is_callable I r then map_sum id (\<lambda>r'. (r', cmd @ ''()'')) (call I r)
                      else Inr (r, cmd)) of
                  Inl e \<Rightarrow> (Inl e, ns', st)
                | Inr (r', cmd') \<Rightarrow>
                    (Inr (), ns',
                     info ''Result: %s'' [Val r'] (info ''Eval: %s'' [Str cmd'] st)))))"

definition cmd_exec ::
  "'v interp \<Rightarrow> (string \<times> 'v) list \<Rightarrow> string \<Rightarrow> 'v cmdstate
     \<Rightarrow> (pyexc + retval) \<times> 'v cmdstate" where
  "cmd_exec I automate_dict cmd st =
     (if cmd = [] then (Inr RNone, st)
      else
        let ns = cmd_namespace automate_dict st;
            rval = True;
            nscopy = ns
        in case eval_branch I cmd ns st of
             (Inr u, ns', st') \<Rightarrow> (Inr (RBool rval), st')
           | (Inl SyntaxError, ns', st') \<Rightarrow> exec_branch I cmd nscopy ns' st'
           | (Inl ExitException, ns', st') \<Rightarrow> (Inl ExitException, st')
           | (Inl (OtherException m), ns', st') \<Rightarrow>
               (Inr (RBool False),
                info ''Failed to eval cmd %s: %s'' [Str cmd, Exc (OtherException m)] st')
           | (Inl (BaseOnly m), ns', st') \<Rightarrow> (Inl (BaseOnly m), st'))"



















text \<open>
  A \<open>SyntaxError\<close> raised by the call of the evaluated value is handled like one of
  \<^verbatim>\<open>eval\<close>: the command is run with \<^verbatim>\<open>exec\<close>, and if that succeeds the result
  is \<open>True\<close> although the call failed.
\<close>

lemma syntax_error_from_call:
  "fst (cmd_exec
     \<lparr>py_eval = (\<lambda>cmd ns. (Inr 7, ns)),
      py_exec = (\<lambda>cmd ns. (None, ns)),
      needs_setup = (\<lambda>r. False), setup_system = (\<lambda>r. None),
      is_callable = (\<lambda>r. True), call = (\<lambda>r :: nat. Inl SyntaxError)\<rparr>
     [] ''f'' \<lparr>sys_namespace = [], sys_log = []\<rparr>)
   = Inr (RBool True)"
  by (simp add: cmd_exec_def Let_def eval_branch_def exec_branch_def info_def
      cmd_namespace_def dict_of_def)


section \<open>The Arduino service\<close>

unbundle bit_operations_syntax

text \<open>
  Status values handed to sensors: a boolean, or the float quotient of two integers
  (kept as the pair, so that no floating-point arithmetic is modelled).
\<close>

datatype sval = SBool bool | SQuot int int

datatype aarg = AStr string | AInt int | AHex int | AInts "int list" | AVal sval

datatype handler = String_data_handler | Virtualwire_message_callback

text \<open>
  The effects of the service, in order: log records, calls on the \<open>pyfirmata\<close> board
  (registering a handler, \<open>send_sysex\<close>, writing to the serial port, \<open>get_pin\<close>,
  writing a pin), threads and timers started, and \<open>set_status\<close> calls on sensors
  (named by the sensor's name).
\<close>

datatype aevent =
  ALog level string "aarg list"
| Add_cmd_handler int handler
| Start_thread string
| Start_timer int string
| Send_sysex int "int list"
| Sp_write "int list"
| Get_pin string
| Pin_write string sval
| Set_status string sval


text \<open>A sensor subscribed to VirtualWire broadcasts: its name and its \<open>pin\<close>.\<close>

record vw_sensor =
  sensor_name :: string
  pin :: int

text \<open>
  The service: its configuration traits and its private attributes. \<open>board\<close> says
  whether \<open>_board\<close> is a board (rather than \<open>None\<close>); what the board was told is in
  \<open>trace\<close>. \<open>act_digital\<close> maps a pin number to its \<open>PinTuple\<close>: the type letter and
  the pin (named by its \<open>get_pin\<close> specification) or \<open>None\<close>. The two
  \<^verbatim>\<open>defaultdict(list)\<close> of subscribed sensors are total functions.
\<close>

record arduino =
  device :: string
  sample_rate :: int
  home_address :: int
  device_address :: int
  virtualwire_tx_pin :: int
  virtualwire_rx_pin :: int
  virtualwire_ptt_pin :: int
  lcd_port :: int
  lcd_columns :: int
  lcd_rows :: int
  lcd_reporting :: bool
  wakeup_pin :: int
  virtualwire_speed :: int
  keep_alive :: bool
  analog_reference :: int
  instant_digital_reporting :: bool
  board :: bool
  is_mocked :: bool
  lock :: bool
  act_digital :: "int \<rightharpoonup> string \<times> string option"
  sens_virtualwire_digital :: "int \<Rightarrow> vw_sensor list"
  sens_virtualwire_analog :: "int \<Rightarrow> vw_sensor list"
  trace :: "aevent list"

text \<open>The module's constants, and those of \<open>pyfirmata\<close> that it uses.\<close>

definition SYSEX_VIRTUALWIRE_MESSAGE :: int where "SYSEX_VIRTUALWIRE_MESSAGE = 0x00"
definition SYSEX_KEEP_ALIVE :: int where "SYSEX_KEEP_ALIVE = 0x01"
definition SYSEX_SETUP_VIRTUALWIRE :: int where "SYSEX_SETUP_VIRTUALWIRE = 0x02"
definition SYSEX_SETUP_LCD :: int where "SYSEX_SETUP_LCD = 0x03"
definition SYSEX_SET_ANALOG_REFERENCE :: int where "SYSEX_SET_ANALOG_REFERENCE = 0x05"
definition SYSEX_SET_INSTANT_DIGITAL_REPORTING :: int where
  "SYSEX_SET_INSTANT_DIGITAL_REPORTING = 0x06"
definition VIRTUALWIRE_DIGITAL_BROADCAST :: int where "VIRTUALWIRE_DIGITAL_BROADCAST = 0x06"
definition VIRTUALWIRE_ANALOG_BROADCAST :: int where "VIRTUALWIRE_ANALOG_BROADCAST = 0x07"
definition STRING_DATA :: int where "STRING_DATA = 0x71"
definition SAMPLING_INTERVAL :: int where "SAMPLING_INTERVAL = 0x7A"
definition SYSTEM_RESET :: int where "SYSTEM_RESET = 0xFF"

definition record_event :: "aevent \<Rightarrow> arduino \<Rightarrow> arduino" where
  "record_event e s = s\<lparr>trace := trace s @ [e]\<rparr>"

definition and_then :: "error + 'a \<Rightarrow> ('a \<Rightarrow> error + 'b) \<Rightarrow> error + 'b" where
  "and_then r f = (case r of Inl e \<Rightarrow> Inl e | Inr x \<Rightarrow> f x)"

text \<open>\<^verbatim>\<open>bytearray(items)\<close> accepts integers in \<open>range(256)\<close> only.\<close>

definition bytearray :: "int list \<Rightarrow> error + int list" where
  "bytearray items = (if list_all (\<lambda>b. 0 \<le> b \<and> b < 256) items then Inr items else Inl ValueError)"

text \<open>\<open>write(self, *data)\<close>: the conversion comes before the test of the board.\<close>

definition service_write :: "int list \<Rightarrow> arduino \<Rightarrow> error + arduino" where
  "service_write data s =
     and_then (bytearray data) (\<lambda>data.
       if \<not> board s then Inr s
       else Inr (record_event (Sp_write data)
                  (record_event (ALog DEBUG ''Writing %s'' [AInts data]) s)))"

definition reset :: "arduino \<Rightarrow> error + arduino" where
  "reset s = (if \<not> board s then Inr s else service_write [SYSTEM_RESET] s)"

text \<open>
  \<open>Board.send_sysex(sysex_cmd, data)\<close> of \<open>pyfirmata\<close>: it builds a \<open>bytearray\<close>
  from the command and the data and writes it to the serial port.
\<close>

definition send_sysex :: "int \<Rightarrow> int list \<Rightarrow> arduino \<Rightarrow> error + arduino" where
  "send_sysex sysex_cmd data s =
     and_then (bytearray (sysex_cmd # data)) (\<lambda>msg. Inr (record_event (Send_sysex sysex_cmd data) s))"

text \<open>
  \<open>pyfirmata.util.to_two_bytes\<close>: it rejects values above 32767 and builds a
  \<open>bytearray\<close> of the low seven bits and the rest.
\<close>

definition to_two_bytes :: "int \<Rightarrow> error + int list" where
  "to_two_bytes i = (if i > 32767 then Inl ValueError else bytearray [i mod 128, drop_bit 7 i])"

definition configure_sample_rate :: "arduino \<Rightarrow> error + arduino" where
  "configure_sample_rate s =
     (if \<not> board s then Inr s
      else and_then (to_two_bytes (sample_rate s)) (\<lambda>data. send_sysex SAMPLING_INTERVAL data s))"

definition configure_instant_digital_reporting :: "arduino \<Rightarrow> error + arduino" where
  "configure_instant_digital_reporting s =
     (if \<not> board s then Inr s
      else send_sysex SYSEX_SET_INSTANT_DIGITAL_REPORTING
             [if instant_digital_reporting s then 1 else 0] s)"

definition setup_virtualwire_input :: "arduino \<Rightarrow> arduino" where
  "setup_virtualwire_input s =
     (if \<not> board s then s
      else record_event (Add_cmd_handler SYSEX_VIRTUALWIRE_MESSAGE Virtualwire_message_callback) s)"

definition configure_virtualwire :: "arduino \<Rightarrow> error + arduino" where
  "configure_virtualwire s =
     (if \<not> board s then Inr s
      else
        and_then
          (send_sysex SYSEX_SETUP_VIRTUALWIRE
            [virtualwire_rx_pin s, virtualwire_tx_pin s, virtualwire_ptt_pin s, wakeup_pin s,
             virtualwire_speed s, home_address s, device_address s]
            (record_event (ALog DEBUG ''Configuring virtualwire'' []) s))
          (\<lambda>s. Inr (setup_virtualwire_input s)))"

definition configure_lcd :: "arduino \<Rightarrow> error + arduino" where
  "configure_lcd s =
     (if \<not> board s then Inr s
      else send_sysex SYSEX_SETUP_LCD
             [lcd_port s, lcd_columns s, lcd_rows s, if lcd_reporting s then 1 else 0]
             (record_event (ALog DEBUG ''Configuring LCD in port %d cols %d rows %d''
               [AInt (lcd_port s), AInt (lcd_columns s), AInt (lcd_rows s)]) s))"

definition configure_analog_reference :: "arduino \<Rightarrow> error + arduino" where
  "configure_analog_reference s =
     (if analog_reference s = - 1 then Inr s
      else if \<not> board s then Inr s
      else send_sysex SYSEX_SET_ANALOG_REFERENCE [analog_reference s]
             (record_event (ALog DEBUG ''Configuring Analog reference to setting %d''
               [AInt (analog_reference s)]) s))"

text \<open>
  \<open>_keep_alive\<close>: it does not test the board, so sending with \<open>_board = None\<close>
  raises \<open>AttributeError\<close>. The timer it starts calls it again after 60 seconds; those
  later calls are not part of a run of \<open>setup\<close>.
\<close>

definition keep_alive_message :: "arduino \<Rightarrow> error + arduino" where
  "keep_alive_message s =
     and_then
       (if keep_alive s then
          (let s = record_event (ALog DEBUG ''Sending keep-alive message to Arduino'' []) s
           in if board s then send_sysex SYSEX_KEEP_ALIVE [0] s
              else Inl AttributeError)
        else Inr s)
       (\<lambda>s. Inr (record_event (Start_timer 60 ''Arduino keepalive (60s)'') s))"

text \<open>
  \<open>setup\<close>. Its surroundings are parameters: whether \<^verbatim>\<open>os.access(device, R_OK)\<close>
  holds, whether \<open>pyfirmata.BOARDS\<close> knows the device type, the \<open>errno\<close> of the
  \<open>OSError\<close> that opening the board raises (if it does), and the value of
  \<^verbatim>\<open>os.errno.ENOENT\<close>, which exists only where the module \<open>os\<close> still has the
  attribute \<open>errno\<close>.
\<close>

record setup_env =
  readable :: bool
  known_device_type :: bool
  board_oserror :: "int option"
  os_errno_ENOENT :: "int option"

definition mock :: "arduino \<Rightarrow> arduino" where
  "mock s =
     (record_event (ALog WARNING
         ''Your arduino device %s is not available. Arduino will be mocked.'' [AStr (device s)]) s)
       \<lparr>board := False, is_mocked := True\<rparr>"

definition acquire_board :: "setup_env \<Rightarrow> arduino \<Rightarrow> error + arduino" where
  "acquire_board env s =
     (if \<not> readable env then Inr (mock s)
      else if \<not> known_device_type env then Inl KeyError
      else case board_oserror env of
             None \<Rightarrow> Inr (s\<lparr>board := True, is_mocked := False\<rparr>)
           | Some errno \<Rightarrow>
               (case os_errno_ENOENT env of
                  None \<Rightarrow> Inl AttributeError
                | Some enoent \<Rightarrow> if errno = enoent then Inr (mock s) else Inl (OSError errno)))"

definition service_setup :: "setup_env \<Rightarrow> arduino \<Rightarrow> error + arduino" where
  "service_setup env s =
     and_then (acquire_board env (record_event (ALog DEBUG ''Initializing Arduino subsystem'' []) s))
       (\<lambda>s. let s = s\<lparr>lock := True\<rparr>
            in if board s then
                 and_then
                   (reset
                     (record_event (Start_thread (''PyFirmata thread for '' @ device s))
                       (record_event (Add_cmd_handler STRING_DATA String_data_handler) s)))
                   (\<lambda>s. and_then (configure_sample_rate s)
                   (\<lambda>s. and_then (configure_instant_digital_reporting s)
                   (\<lambda>s. and_then (configure_virtualwire s)
                   (\<lambda>s. and_then (configure_lcd s)
                   (\<lambda>s. and_then (configure_analog_reference s)
                     keep_alive_message)))))
               else Inr s)"

text \<open>
  \<open>send_virtualwire_command(self, recipient, command, *args)\<close>; an argument is a
  \<open>bytearray\<close>, a string (given by its UTF-8 bytes) or an integer.
\<close>

datatype vw_arg = Bytes "int list" | Text "int list" | Number int

fun extend_data :: "int list \<Rightarrow> vw_arg list \<Rightarrow> error + int list" where
  "extend_data data [] = Inr data"
| "extend_data data (Bytes a # args) = extend_data (data @ a) args"
| "extend_data data (Text a # args) = extend_data (data @ a) args"
| "extend_data data (Number a # args) =
     (if 0 \<le> a \<and> a < 256 then extend_data (data @ [a]) args else Inl ValueError)"

definition send_virtualwire_command :: "int \<Rightarrow> int \<Rightarrow> vw_arg list \<Rightarrow> arduino \<Rightarrow> error + arduino" where
  "send_virtualwire_command recipient command args s =
     (if \<not> board s then Inr s
      else
        and_then (bytearray [home_address s, device_address s, recipient, command]) (\<lambda>data.
        and_then (extend_data data args) (\<lambda>data.
          send_sysex SYSEX_VIRTUALWIRE_MESSAGE data
            (record_event (ALog DEBUG ''VW: Sending command %s'' [AInts data]) s))))"

text \<open>\<open>change_digital(self, pin_nr, value)\<close>\<close>

definition change_digital :: "int \<Rightarrow> sval \<Rightarrow> arduino \<Rightarrow> error + arduino" where
  "change_digital pin_nr val s =
     (if \<not> board s then Inr s
      else case act_digital s pin_nr of
             None \<Rightarrow> Inl KeyError
           | Some (t, None) \<Rightarrow> Inl AttributeError
           | Some (t, Some p) \<Rightarrow> Inr (record_event (Pin_write p val) s))"

text \<open>\<^verbatim>\<open>str(i)\<close> for an integer.\<close>

definition str_int :: "int \<Rightarrow> string" where
  "str_int i = (if i < 0 then ''-'' @ fmt_d (nat (- i)) else fmt_d (nat i))"

text \<open>
  \<open>setup_digital(self, pin_nr)\<close>; \<open>get_pin\<close> is taken to succeed.
\<close>

definition setup_digital :: "int \<Rightarrow> arduino \<Rightarrow> arduino" where
  "setup_digital pin_nr s =
     (if \<not> board s then s\<lparr>act_digital := (act_digital s)(pin_nr \<mapsto> (''o'', None))\<rparr>
      else let spec = ''d:'' @ str_int pin_nr @ '':o''
           in (record_event (Get_pin spec) s)
                \<lparr>act_digital := (act_digital s)(pin_nr \<mapsto> (''o'', Some spec))\<rparr>)"

text \<open>
  \<open>_virtualwire_message_callback(self, sender_address, command, *data)\<close>. The
  arguments of the first \<open>debug\<close> call are evaluated whatever the log level, and
  \<^verbatim>\<open>bytearray(data)\<close> is among them.
\<close>

definition digital_update :: "int \<Rightarrow> int \<Rightarrow> vw_sensor \<Rightarrow> arduino \<Rightarrow> arduino" where
  "digital_update port_nr val sensor s =
     (let port = pin sensor div 8;
          pin_in_port = pin sensor mod 8
      in if port_nr = port
         then record_event
                (Set_status (sensor_name sensor)
                   (SBool (val AND push_bit (nat pin_in_port) 1 \<noteq> 0))) s
         else s)"

definition analog_update :: "int \<Rightarrow> sval \<Rightarrow> vw_sensor \<Rightarrow> arduino \<Rightarrow> arduino" where
  "analog_update pin' val sensor s =
     (if pin sensor = pin' then record_event (Set_status (sensor_name sensor) val) s else s)"

definition virtualwire_message_callback :: "int \<Rightarrow> int \<Rightarrow> int list \<Rightarrow> arduino \<Rightarrow> error + arduino" where
  "virtualwire_message_callback sender_address command data s =
     and_then (bytearray data) (\<lambda>bytes.
       let s = record_event (ALog DEBUG ''pulse %s %s %s''
                 [AInt sender_address, AHex command, AInts bytes]) s
       in if command = VIRTUALWIRE_DIGITAL_BROADCAST then
            (if length data \<noteq> 2 then
               Inr (record_event (ALog ERROR ''Broken digital data: %s %s %s''
                      [AInt sender_address, AInt command, AInts data]) s)
             else
               (case data of [port_nr, val] \<Rightarrow>
                  Inr (fold (digital_update port_nr val)
                         (sens_virtualwire_digital s sender_address) s)
                | _ \<Rightarrow> Inr s))
          else if command = VIRTUALWIRE_ANALOG_BROADCAST then
            (if length data \<noteq> 3 then
               Inr (record_event (ALog ERROR ''Broken analog data: %s %s %s''
                      [AInt sender_address, AInt command, AInts data]) s)
             else
               (case data of [pin', msb, lsb] \<Rightarrow>
                  let val = push_bit 8 msb + lsb;
                      val = SQuot val 1023;
                      s = record_event (ALog DEBUG ''Analog data: %s %s'' [AInt pin', AVal val]) s
                  in Inr (fold (analog_update pin' val)
                            (sens_virtualwire_analog s sender_address) s)
                | _ \<Rightarrow> Inr s))
          else Inr s)"


text \<open>
  A service as \<open>__init__\<close> leaves it, with the default values of the traits.
\<close>

definition ArduinoService_init :: arduino where
  "ArduinoService_init =
     \<lparr>device = ''/dev/ttyUSB0'', sample_rate = 500, home_address = 0, device_address = 0,
      virtualwire_tx_pin = 0, virtualwire_rx_pin = 0, virtualwire_ptt_pin = 0,
      lcd_port = 0, lcd_columns = 16, lcd_rows = 2, lcd_reporting = False,
      wakeup_pin = 0, virtualwire_speed = 2, keep_alive = True,
      analog_reference = - 1, instant_digital_reporting = True,
      board = False, is_mocked = False, lock = False,
      act_digital = Map.empty,
      sens_virtualwire_digital = (\<lambda>source_device. []),
      sens_virtualwire_analog = (\<lambda>source_device. []),
      trace = []\<rparr>"

lemma setup_unreadable:
  assumes "\<not> readable env"
  shows "service_setup env s =
     Inr (s\<lparr>board := False, is_mocked := True, lock := True,
            trace := trace s @
              [ALog DEBUG ''Initializing Arduino subsystem'' [],
               ALog WARNING ''Your arduino device %s is not available. Arduino will be mocked.''
                 [AStr (device s)]]\<rparr>)"
  using assms
  by (simp add: service_setup_def acquire_board_def mock_def record_event_def and_then_def)

lemma bytearray_ok: "list_all (\<lambda>b. 0 \<le> b \<and> b < 256) data \<Longrightarrow> bytearray data = Inr data"
  by (simp add: bytearray_def)

text \<open>
  C7. If \<^verbatim>\<open>os.access(device, R_OK)\<close> fails (the device file is missing or not
  readable), \<open>setup\<close> returns normally: it logs a warning, leaves \<open>_board\<close> at
  \<open>None\<close> and sets \<open>is_mocked\<close>; nothing is sent anywhere and no thread is started.
  In any state without a board, \<open>change_digital\<close>, \<open>send_virtualwire_command\<close>,
  \<open>reset\<close> and \<open>write\<close> with bytes return without any effect (\<open>write\<close> can only
  return so or reject its arguments with \<open>ValueError\<close>), and \<open>setup_digital\<close> still
  registers the actuator's pin, with no pin object.
\<close>

theorem setup_degrades_to_mocked:
  assumes "\<not> readable env"
  shows "(\<exists>m. service_setup env s = Inr m \<and> is_mocked m \<and> \<not> board m
            \<and> m = s\<lparr>board := False, is_mocked := True, lock := True,
                     trace := trace s @
                       [ALog DEBUG ''Initializing Arduino subsystem'' [],
                        ALog WARNING
                          ''Your arduino device %s is not available. Arduino will be mocked.''
                          [AStr (device s)]]\<rparr>)
     \<and> (\<forall>m. \<not> board m \<longrightarrow>
            (\<forall>pin_nr val. change_digital pin_nr val m = Inr m)
          \<and> (\<forall>recipient command args. send_virtualwire_command recipient command args m = Inr m)
          \<and> (\<forall>data. list_all (\<lambda>b. 0 \<le> b \<and> b < 256) data \<longrightarrow> service_write data m = Inr m)
          \<and> (\<forall>data. service_write data m = Inr m \<or> service_write data m = Inl ValueError)
          \<and> reset m = Inr m
          \<and> (\<forall>pin_nr. setup_digital pin_nr m
                = m\<lparr>act_digital := (act_digital m)(pin_nr \<mapsto> (''o'', None))\<rparr>))"
proof (intro conjI allI impI)
  show "\<exists>m. service_setup env s = Inr m \<and> is_mocked m \<and> \<not> board m
            \<and> m = s\<lparr>board := False, is_mocked := True, lock := True,
                     trace := trace s @
                       [ALog DEBUG ''Initializing Arduino subsystem'' [],
                        ALog WARNING
                          ''Your arduino device %s is not available. Arduino will be mocked.''
                          [AStr (device s)]]\<rparr>"
    using setup_unreadable [OF assms, of s] by simp
next
  fix m :: arduino and pin_nr val assume "\<not> board m"
  then show "change_digital pin_nr val m = Inr m" by (simp add: change_digital_def)
next
  fix m :: arduino and recipient command args assume "\<not> board m"
  then show "send_virtualwire_command recipient command args m = Inr m"
    by (simp add: send_virtualwire_command_def)
next
  fix m :: arduino and data :: "int list" assume "\<not> board m" "list_all (\<lambda>b. 0 \<le> b \<and> b < 256) data"
  then show "service_write data m = Inr m"
    by (simp add: service_write_def bytearray_ok and_then_def)
next
  fix m :: arduino and data :: "int list" assume "\<not> board m"
  then show "service_write data m = Inr m \<or> service_write data m = Inl ValueError"
    by (simp add: service_write_def bytearray_def and_then_def)
next
  fix m :: arduino assume "\<not> board m"
  then show "reset m = Inr m" by (simp add: reset_def)
next
  fix m :: arduino and pin_nr assume "\<not> board m"
  then show "setup_digital pin_nr m
                = m\<lparr>act_digital := (act_digital m)(pin_nr \<mapsto> (''o'', None))\<rparr>"
    by (simp add: setup_digital_def)
qed

text \<open>C7, witness: the default service with an unreadable device.\<close>

theorem setup_degrades_to_mocked_witness:
  "service_setup
      \<lparr>readable = False, known_device_type = True, board_oserror = None,
       os_errno_ENOENT = None\<rparr> ArduinoService_init
     = Inr (ArduinoService_init\<lparr>is_mocked := True, lock := True,
              trace := [ALog DEBUG ''Initializing Arduino subsystem'' [],
                        ALog WARNING
                          ''Your arduino device %s is not available. Arduino will be mocked.''
                          [AStr ''/dev/ttyUSB0'']]\<rparr>)
   \<and> change_digital 13 (SBool True)
        (ArduinoService_init\<lparr>is_mocked := True, lock := True,
              trace := [ALog DEBUG ''Initializing Arduino subsystem'' [],
                        ALog WARNING
                          ''Your arduino device %s is not available. Arduino will be mocked.''
                          [AStr ''/dev/ttyUSB0'']]\<rparr>)
     = Inr (ArduinoService_init\<lparr>is_mocked := True, lock := True,
              trace := [ALog DEBUG ''Initializing Arduino subsystem'' [],
                        ALog WARNING
                          ''Your arduino device %s is not available. Arduino will be mocked.''
                          [AStr ''/dev/ttyUSB0'']]\<rparr>)"
proof -
  let ?env = "\<lparr>readable = False, known_device_type = True, board_oserror = None,
       os_errno_ENOENT = None\<rparr>"
  let ?m = "ArduinoService_init\<lparr>is_mocked := True, lock := True,
              trace := [ALog DEBUG ''Initializing Arduino subsystem'' [],
                        ALog WARNING
                          ''Your arduino device %s is not available. Arduino will be mocked.''
                          [AStr ''/dev/ttyUSB0'']]\<rparr>"
  have h: "\<not> readable ?env" by simp
  note r = setup_degrades_to_mocked [OF h, of ArduinoService_init]
  have nb: "\<not> board ?m" by (simp add: ArduinoService_init_def)
  note r1 = r [THEN conjunct1]
  note r2 = r [THEN conjunct2, rule_format, OF nb, THEN conjunct1, rule_format, of 13 "SBool True"]
  from r1 obtain m where m: "service_setup ?env ArduinoService_init = Inr m"
    "m = ArduinoService_init\<lparr>board := False, is_mocked := True, lock := True,
                     trace := trace ArduinoService_init @
                       [ALog DEBUG ''Initializing Arduino subsystem'' [],
                        ALog WARNING
                          ''Your arduino device %s is not available. Arduino will be mocked.''
                          [AStr (device ArduinoService_init)]]\<rparr>"
    by blast
  have "m = ?m" unfolding m(2) by (simp add: ArduinoService_init_def)
  with m(1) have "service_setup ?env ArduinoService_init = Inr ?m" by simp
  moreover have "change_digital 13 (SBool True) ?m = Inr ?m"
    by (rule r2)
  ultimately show ?thesis by simp
qed

text \<open>
  C8. Let the payload consist of bytes, as read from the serial port. A digital
  broadcast whose payload has not exactly 2 items, and an analog broadcast whose
  payload has not exactly 3, make the callback return normally after logging the
  \<open>pulse\<close> line and one error: the trace gains these two records and no
  \<open>set_status\<close> call, and nothing else in the service changes.
\<close>

theorem malformed_broadcast_dropped:
  assumes "list_all (\<lambda>b. 0 \<le> b \<and> b < 256) data"
    and "(command = VIRTUALWIRE_DIGITAL_BROADCAST \<and> length data \<noteq> 2)
       \<or> (command = VIRTUALWIRE_ANALOG_BROADCAST \<and> length data \<noteq> 3)"
  shows "virtualwire_message_callback sender_address command data s =
     Inr (s\<lparr>trace := trace s @
       [ALog DEBUG ''pulse %s %s %s'' [AInt sender_address, AHex command, AInts data],
        ALog ERROR
          (if command = VIRTUALWIRE_DIGITAL_BROADCAST then ''Broken digital data: %s %s %s''
           else ''Broken analog data: %s %s %s'')
          [AInt sender_address, AInt command, AInts data]]\<rparr>)"
proof -
  have b: "bytearray data = Inr data" using assms(1) by (rule bytearray_ok)
  have ne: "VIRTUALWIRE_ANALOG_BROADCAST \<noteq> VIRTUALWIRE_DIGITAL_BROADCAST"
    by (simp add: VIRTUALWIRE_DIGITAL_BROADCAST_def VIRTUALWIRE_ANALOG_BROADCAST_def)
  from assms(2) show ?thesis
  proof
    assume "command = VIRTUALWIRE_DIGITAL_BROADCAST \<and> length data \<noteq> 2"
    then show ?thesis
      by (simp add: virtualwire_message_callback_def b and_then_def record_event_def Let_def)
  next
    assume "command = VIRTUALWIRE_ANALOG_BROADCAST \<and> length data \<noteq> 3"
    then show ?thesis using ne
      by (simp add: virtualwire_message_callback_def b and_then_def record_event_def Let_def)
  qed
qed

text \<open>C8, witness: a digital broadcast with three payload bytes, one sensor subscribed.\<close>

theorem malformed_broadcast_dropped_witness:
  "virtualwire_message_callback 5 6 [1, 2, 3]
     (ArduinoService_init\<lparr>sens_virtualwire_digital :=
        (\<lambda>source_device. if source_device = 5 then [\<lparr>sensor_name = ''door'', pin = 9\<rparr>] else [])\<rparr>)
   = Inr (ArduinoService_init\<lparr>sens_virtualwire_digital :=
        (\<lambda>source_device. if source_device = 5 then [\<lparr>sensor_name = ''door'', pin = 9\<rparr>] else []),
        trace := [ALog DEBUG ''pulse %s %s %s'' [AInt 5, AHex 6, AInts [1, 2, 3]],
                  ALog ERROR ''Broken digital data: %s %s %s'' [AInt 5, AInt 6, AInts [1, 2, 3]]]\<rparr>)"
proof -
  have h1: "list_all (\<lambda>b. 0 \<le> b \<and> b < 256) [1, 2, 3 :: int]" by simp
  have h2: "((6 :: int) = VIRTUALWIRE_DIGITAL_BROADCAST \<and> length [1, 2, 3 :: int] \<noteq> 2)
       \<or> ((6 :: int) = VIRTUALWIRE_ANALOG_BROADCAST \<and> length [1, 2, 3 :: int] \<noteq> 3)"
    by (simp add: VIRTUALWIRE_DIGITAL_BROADCAST_def)
  from malformed_broadcast_dropped [OF h1 h2, of 5
      "ArduinoService_init\<lparr>sens_virtualwire_digital :=
        (\<lambda>source_device. if source_device = 5 then [\<lparr>sensor_name = ''door'', pin = 9\<rparr>] else [])\<rparr>"]
  show ?thesis
    by (simp add: VIRTUALWIRE_DIGITAL_BROADCAST_def ArduinoService_init_def)
qed

text \<open>For comparison, the same broadcast with two payload bytes sets the sensor.\<close>

lemma well_formed_broadcast_sets_status:
  "virtualwire_message_callback 5 6 [1, 2]
     (ArduinoService_init\<lparr>sens_virtualwire_digital :=
        (\<lambda>source_device. if source_device = 5 then [\<lparr>sensor_name = ''door'', pin = 9\<rparr>] else [])\<rparr>)
   = Inr (ArduinoService_init\<lparr>sens_virtualwire_digital :=
        (\<lambda>source_device. if source_device = 5 then [\<lparr>sensor_name = ''door'', pin = 9\<rparr>] else []),
        trace := [ALog DEBUG ''pulse %s %s %s'' [AInt 5, AHex 6, AInts [1, 2]],
                  Set_status ''door'' (SBool True)]\<rparr>)"
proof -
  have "(2 :: int) AND push_bit (nat (9 mod 8)) 1 \<noteq> 0" by simp
  then show ?thesis
    by (simp add: virtualwire_message_callback_def bytearray_def and_then_def record_event_def
        Let_def VIRTUALWIRE_DIGITAL_BROADCAST_def ArduinoService_init_def digital_update_def)
qed

end
